theory Spec2Isabelle
  imports Complex_Main "HOL-Library.Multiset"
begin

section \<open>Data model (src/types/tools.ts)\<close>

text \<open>
  JavaScript strings are modelled as \<open>string\<close>: sequences of code units below 256.
  A property that may be absent (\<open>undefined\<close>) is an \<open>option\<close>; the handlers test such
  properties for truthiness, so \<open>None\<close> and an empty string are both falsy. Numbers that
  arrive in JSON are rationals.
\<close>

text \<open>
  \<open>node.parameters\<close> is a free-form object. The handlers observe it in two ways only:
  through the text \<open>JSON.stringify(node.parameters)\<close> and through the property
  \<open>parameters.path\<close>; the record keeps exactly these two observations.
\<close>

record Parameters =
  p_json :: string
  p_path :: "string option"

text \<open>
  interface WorkflowNode. The interface declares id, name, type, typeVersion, position and
  parameters as required, but the handlers check each for absence, so each is optional here.
  A value of this record is also a partial node (the \<open>updates\<close> patch of updateNode):
  \<open>None\<close> is a key that the patch does not carry.
\<close>

record WorkflowNode =
  n_id :: "string option"
  n_name :: "string option"
  n_type :: "string option"
  typeVersion :: "rat option"
  position :: "rat list option"
  parameters :: "Parameters option"
  disabled :: "bool option"

record ConnectionTarget =
  c_node :: string
  c_type :: string
  c_index :: nat

text \<open>
  interface WorkflowConnection: source name, then output type, then an array of arrays of
  targets. Objects are association lists in property enumeration order.
\<close>

type_synonym WorkflowConnection = "(string \<times> (string \<times> ConnectionTarget list list) list) list"

datatype SettingValue = SBool bool | SNum rat | SStr string

type_synonym WorkflowSettings = "string \<rightharpoonup> SettingValue"

record Workflow =
  w_name :: string
  nodes :: "WorkflowNode list"
  connections :: WorkflowConnection
  settings :: "WorkflowSettings option"

section \<open>Remote Sync client (src/services/n8n-api-client.ts)\<close>

text \<open>
  The remote store maps workflow ids to whole documents. \<open>writes\<close> logs every
  \<open>updateWorkflow\<close> call (a PUT of the full document) in order. A request for an id that
  the store does not hold is rejected, which the client raises as an exception.
\<close>

record Remote =
  store :: "string \<rightharpoonup> Workflow"
  writes :: "(string \<times> Workflow) list"

datatype JsError = TransportError | TypeError

definition getWorkflow :: "Remote \<Rightarrow> string \<Rightarrow> JsError + Workflow" where
  "getWorkflow r wid = (case store r wid of None \<Rightarrow> Inl TransportError | Some w \<Rightarrow> Inr w)"

definition updateWorkflow :: "Remote \<Rightarrow> string \<Rightarrow> Workflow \<Rightarrow> JsError + Remote" where
  "updateWorkflow r wid w =
     (case store r wid of
        None \<Rightarrow> Inl TransportError
      | Some _ \<Rightarrow> Inr (r\<lparr>store := (store r)(wid \<mapsto> w), writes := writes r @ [(wid, w)]\<rparr>))"

section \<open>JavaScript helpers\<close>

text \<open>Truthiness of an optional string, an optional number and an optional boolean.\<close>

definition truthyStr :: "string option \<Rightarrow> bool" where
  "truthyStr s = (case s of None \<Rightarrow> False | Some t \<Rightarrow> t \<noteq> [])"

definition truthyNum :: "rat option \<Rightarrow> bool" where
  "truthyNum x = (case x of None \<Rightarrow> False | Some v \<Rightarrow> v \<noteq> 0)"

definition truthyBool :: "bool option \<Rightarrow> bool" where
  "truthyBool b = (case b of None \<Rightarrow> False | Some v \<Rightarrow> v)"

text \<open>An optional string inside a template literal: \<open>undefined\<close> prints as such.\<close>

definition templ :: "string option \<Rightarrow> string" where
  "templ s = (case s of None \<Rightarrow> ''undefined'' | Some t \<Rightarrow> t)"

text \<open>\<open>a || b\<close> on optional strings.\<close>

definition orElse :: "string option \<Rightarrow> string option \<Rightarrow> string option" where
  "orElse a b = (if truthyStr a then a else b)"

text \<open>\<open>Array.prototype.findIndex\<close>; \<open>None\<close> is the result -1.\<close>

fun findIndex :: "('a \<Rightarrow> bool) \<Rightarrow> 'a list \<Rightarrow> nat option" where
  "findIndex P [] = None"
| "findIndex P (x # xs) = (if P x then Some 0 else map_option Suc (findIndex P xs))"

text \<open>\<open>xs.splice(i, 1)\<close>.\<close>

definition splice1 :: "nat \<Rightarrow> 'a list \<Rightarrow> 'a list" where
  "splice1 i xs = take i xs @ drop (Suc i) xs"

text \<open>\<open>String.prototype.startsWith\<close> and \<open>String.prototype.includes\<close>.\<close>

fun startsWith :: "string \<Rightarrow> string \<Rightarrow> bool" where
  "startsWith s [] = True"
| "startsWith [] (c # cs) = False"
| "startsWith (d # ds) (c # cs) = (d = c \<and> startsWith ds cs)"

fun str_includes :: "string \<Rightarrow> string \<Rightarrow> bool" where
  "str_includes [] t = (t = [])"
| "str_includes (c # cs) t = (startsWith (c # cs) t \<or> str_includes cs t)"

section \<open>Operation Engine: updatePartialWorkflowHandler (src/index.ts)\<close>

text \<open>
  A diff operation is a loosely typed object with a \<open>type\<close> string; the switch of the
  handler dispatches on that string. The tool description requires each operation to carry
  the properties of its type, so \<open>node\<close> (read by addNode only) and \<open>name\<close> (read by
  updateName only) are not optional here. nodeId and nodeName are optional; an absent
  \<open>updates\<close> or \<open>settings\<close> spreads like an empty object. No other property of an
  operation is read anywhere in the handler.
\<close>

record Operation =
  op_type :: string
  op_node :: WorkflowNode
  nodeId :: "string option"
  nodeName :: "string option"
  updates :: WorkflowNode
  op_name :: string
  op_settings :: WorkflowSettings

record AppliedRecord =
  a_index :: nat
  a_type :: string
  a_nodeName :: "string option"
  a_newName :: "string option"

record FailedRecord =
  f_index :: nat
  f_type :: string
  f_error :: string

text \<open>
  The three lookups:
  \<open>workflow.nodes.findIndex(n => n.id === op.nodeId || n.name === op.nodeName)\<close>.
  Two absent values are equal under \<open>===\<close>, as two \<open>None\<close> are.
\<close>

definition matchesNode :: "Operation \<Rightarrow> WorkflowNode \<Rightarrow> bool" where
  "matchesNode op n = (n_id n = nodeId op \<or> n_name n = nodeName op)"

definition lookupNode :: "Operation \<Rightarrow> Workflow \<Rightarrow> nat option" where
  "lookupNode op w = findIndex (matchesNode op) (nodes w)"

definition nodeNotFound :: "Operation \<Rightarrow> string" where
  "nodeNotFound op = ''Node not found: '' @ templ (orElse (nodeId op) (nodeName op))"

text \<open>The object spread \<open>{ ...node, ...updates }\<close>: keys of the patch overwrite.\<close>

definition over :: "'a option \<Rightarrow> 'a option \<Rightarrow> 'a option" where
  "over old new = (case new of None \<Rightarrow> old | Some v \<Rightarrow> Some v)"

definition mergeNode :: "WorkflowNode \<Rightarrow> WorkflowNode \<Rightarrow> WorkflowNode" where
  "mergeNode n u =
     \<lparr> n_id = over (n_id n) (n_id u),
       n_name = over (n_name n) (n_name u),
       n_type = over (n_type n) (n_type u),
       typeVersion = over (typeVersion n) (typeVersion u),
       position = over (position n) (position u),
       parameters = over (parameters n) (parameters u),
       disabled = over (disabled n) (disabled u) \<rparr>"

definition mergeSettings :: "WorkflowSettings option \<Rightarrow> WorkflowSettings \<Rightarrow> WorkflowSettings option" where
  "mergeSettings old new = Some ((case old of None \<Rightarrow> Map.empty | Some m \<Rightarrow> m) ++ new)"

definition appliedRecord :: "nat \<Rightarrow> Operation \<Rightarrow> AppliedRecord" where
  "appliedRecord i op = \<lparr>a_index = i, a_type = op_type op, a_nodeName = None, a_newName = None\<rparr>"

text \<open>
  One pass through the body of the \<open>try\<close> block for the operation at index \<open>i\<close>:
  \<open>Inl msg\<close> is a thrown \<open>Error(msg)\<close>, \<open>Inr\<close> the mutated workflow with the record
  pushed to \<open>applied\<close>. Every branch that does not throw sets \<open>modified\<close>.
\<close>

definition applyOp :: "nat \<Rightarrow> Operation \<Rightarrow> Workflow \<Rightarrow> string + (Workflow \<times> AppliedRecord)" where
  "applyOp i op w =
     (if op_type op = ''addNode'' then
        Inr (w\<lparr>nodes := nodes w @ [op_node op]\<rparr>,
             (appliedRecord i op)\<lparr>a_nodeName := n_name (op_node op)\<rparr>)
      else if op_type op = ''removeNode'' then
        (case lookupNode op w of
           Some k \<Rightarrow> Inr (w\<lparr>nodes := splice1 k (nodes w)\<rparr>, appliedRecord i op)
         | None \<Rightarrow> Inl (nodeNotFound op))
      else if op_type op = ''updateNode'' then
        (case lookupNode op w of
           Some k \<Rightarrow>
             Inr (w\<lparr>nodes := (nodes w)[k := mergeNode (nodes w ! k) (updates op)]\<rparr>,
                  (appliedRecord i op)\<lparr>a_nodeName := n_name (mergeNode (nodes w ! k) (updates op))\<rparr>)
         | None \<Rightarrow> Inl (nodeNotFound op))
      else if op_type op = ''enableNode'' \<or> op_type op = ''disableNode'' then
        (case lookupNode op w of
           Some k \<Rightarrow>
             Inr (w\<lparr>nodes := (nodes w)[k := (nodes w ! k)\<lparr>disabled := Some (op_type op = ''disableNode'')\<rparr>]\<rparr>,
                  (appliedRecord i op)\<lparr>a_nodeName := n_name (nodes w ! k)\<rparr>)
         | None \<Rightarrow> Inl (nodeNotFound op))
      else if op_type op = ''addConnection'' then
        Inr (w, appliedRecord i op)
      else if op_type op = ''removeConnection'' then
        Inr (w, appliedRecord i op)
      else if op_type op = ''updateName'' then
        Inr (w\<lparr>w_name := op_name op\<rparr>, (appliedRecord i op)\<lparr>a_newName := Some (op_name op)\<rparr>)
      else if op_type op = ''updateSettings'' then
        Inr (w\<lparr>settings := mergeSettings (settings w) (op_settings op)\<rparr>, appliedRecord i op)
      else Inl (''Unknown operation type: '' @ op_type op))"

text \<open>The state of the \<open>for\<close> loop: the working copy, the two lists and the flag.\<close>

record Engine =
  workflow :: Workflow
  applied :: "AppliedRecord list"
  failed :: "FailedRecord list"
  modified :: bool

text \<open>
  The loop from index \<open>i\<close> over the remaining operations. \<open>coe\<close> is the truthiness of
  \<open>args.continueOnError\<close>; without it the loop breaks at the first failure.
\<close>

fun runOps :: "bool \<Rightarrow> nat \<Rightarrow> Operation list \<Rightarrow> Engine \<Rightarrow> Engine" where
  "runOps coe i [] st = st"
| "runOps coe i (op # ops) st =
     (case applyOp i op (workflow st) of
        Inr (w', a) \<Rightarrow>
          runOps coe (Suc i) ops (st\<lparr>workflow := w', applied := applied st @ [a], modified := True\<rparr>)
      | Inl msg \<Rightarrow>
          (let st' = st\<lparr>failed := failed st @ [\<lparr>f_index = i, f_type = op_type op, f_error = msg\<rparr>]\<rparr>
           in if coe then runOps coe (Suc i) ops st' else st'))"

record PartialArgs =
  pa_id :: string
  operations :: "Operation list"
  validateOnly :: "bool option"
  continueOnError :: "bool option"

text \<open>
  The JSON body of the response, without its fixed flags and its \<open>message\<close> text.
  \<open>Validated\<close> carries wouldApply, wouldFail, operations and failures; \<open>Updated\<close> carries
  workflowId, applied, failed, operations and failures; \<open>Failed\<close> is the \<open>isError\<close> response
  of the outer \<open>catch\<close>.
\<close>

datatype PartialResponse =
    Validated nat nat "AppliedRecord list" "FailedRecord list"
  | Updated string nat nat "AppliedRecord list" "FailedRecord list"
  | Failed JsError

definition updatePartialWorkflowHandler :: "PartialArgs \<Rightarrow> Remote \<Rightarrow> PartialResponse \<times> Remote" where
  "updatePartialWorkflowHandler args r =
     (case getWorkflow r (pa_id args) of
        Inl e \<Rightarrow> (Failed e, r)
      | Inr w \<Rightarrow>
          (let st = runOps (truthyBool (continueOnError args)) 0 (operations args)
                      \<lparr>workflow = w, applied = [], failed = [], modified = False\<rparr>
           in if truthyBool (validateOnly args)
              then (Validated (length (applied st)) (length (failed st)) (applied st) (failed st), r)
              else if modified st
              then (case updateWorkflow r (pa_id args) (workflow st) of
                      Inl e \<Rightarrow> (Failed e, r)
                    | Inr r' \<Rightarrow>
                        (Updated (pa_id args) (length (applied st)) (length (failed st))
                           (applied st) (failed st), r'))
              else (Updated (pa_id args) (length (applied st)) (length (failed st))
                      (applied st) (failed st), r)))"

section \<open>Trigger-node counts (src/index.ts)\<close>

text \<open>
  \<open>workflow.nodes.filter(n => P(n.type)).length\<close>: reading a method of an absent
  \<open>type\<close> raises a TypeError, which the handler's outer \<open>catch\<close> turns into an error
  response.
\<close>

fun countByType :: "(string \<Rightarrow> bool) \<Rightarrow> WorkflowNode list \<Rightarrow> JsError + nat" where
  "countByType P [] = Inr 0"
| "countByType P (n # ns) =
     (case n_type n of
        None \<Rightarrow> Inl TypeError
      | Some t \<Rightarrow>
          (case countByType P ns of
             Inl e \<Rightarrow> Inl e
           | Inr k \<Rightarrow> Inr (if P t then Suc k else k)))"

text \<open>The \<open>triggerNodes\<close> property of getWorkflowHandler in mode \<open>details\<close>.\<close>

definition detailsTriggerNodes :: "Workflow \<Rightarrow> JsError + nat" where
  "detailsTriggerNodes w =
     countByType (\<lambda>t. str_includes t ''Trigger'' \<or> str_includes t ''Webhook'' \<or> str_includes t ''Schedule'')
       (nodes w)"

text \<open>The \<open>triggerNodes\<close> property of the summary of validateWorkflowHandler.\<close>

definition summaryTriggerNodes :: "Workflow \<Rightarrow> JsError + nat" where
  "summaryTriggerNodes w =
     countByType (\<lambda>t. str_includes t ''Trigger'' \<or> str_includes t ''Webhook'') (nodes w)"

section \<open>Validation Engine: validateWorkflowHandler (src/index.ts)\<close>

record ValidateOptions =
  validateNodes :: "bool option"
  validateConnections :: "bool option"
  validateExpressions :: "bool option"
  profile :: "string option"

record ValidateArgs =
  va_id :: string
  options :: "ValidateOptions option"

record Issue =
  v_node :: "string option"
  v_connection :: "string option"
  v_message :: string

record Summary =
  totalNodes :: nat
  enabledNodes :: nat
  triggerNodes :: nat
  errorCount :: nat
  warningCount :: nat

text \<open>The JSON body of the response of the handler.\<close>

record ValidationReport =
  vr_workflowId :: string
  vr_workflowName :: string
  valid :: bool
  summary :: Summary
  errors :: "Issue list"
  warnings :: "Issue list"

text \<open>\<open>options.flag !== false\<close> after \<open>options = args.options || {}\<close>.\<close>

definition enabledCheck :: "ValidateOptions option \<Rightarrow> (ValidateOptions \<Rightarrow> bool option) \<Rightarrow> bool" where
  "enabledCheck opts flag = (case opts of None \<Rightarrow> True | Some o' \<Rightarrow> flag o' \<noteq> Some False)"

definition nodeErrors :: "WorkflowNode \<Rightarrow> Issue list" where
  "nodeErrors n =
     (if truthyStr (n_id n) then []
      else [\<lparr>v_node = n_name n, v_connection = None, v_message = ''Missing node ID''\<rparr>]) @
     (if truthyStr (n_name n) then []
      else [\<lparr>v_node = n_id n, v_connection = None, v_message = ''Missing node name''\<rparr>]) @
     (if truthyStr (n_type n) then []
      else [\<lparr>v_node = n_name n, v_connection = None, v_message = ''Missing node type''\<rparr>])"

definition nodeWarnings :: "WorkflowNode \<Rightarrow> Issue list" where
  "nodeWarnings n =
     (case position n of
        None \<Rightarrow> [\<lparr>v_node = n_name n, v_connection = None, v_message = ''Invalid or missing position''\<rparr>]
      | Some p \<Rightarrow>
          if length p \<noteq> 2
          then [\<lparr>v_node = n_name n, v_connection = None, v_message = ''Invalid or missing position''\<rparr>]
          else [])"

text \<open>\<open>nodeNames.has(x)\<close> for the set of the names of the nodes.\<close>

definition hasName :: "Workflow \<Rightarrow> string \<Rightarrow> bool" where
  "hasName w x = (Some x \<in> set (map n_name (nodes w)))"

definition targetErrors :: "Workflow \<Rightarrow> string \<Rightarrow> ConnectionTarget \<Rightarrow> Issue list" where
  "targetErrors w sourceNode t =
     (if hasName w (c_node t) then []
      else [\<lparr>v_node = None, v_connection = Some (sourceNode @ '' -> '' @ c_node t),
             v_message = ''Target node not found: '' @ c_node t\<rparr>])"

definition sourceErrors :: "Workflow \<Rightarrow> string \<times> (string \<times> ConnectionTarget list list) list \<Rightarrow> Issue list" where
  "sourceErrors w entry =
     (case entry of (sourceNode, outputs) \<Rightarrow>
        (if hasName w sourceNode then []
         else [\<lparr>v_node = None, v_connection = Some sourceNode,
                v_message = ''Source node not found: '' @ sourceNode\<rparr>]) @
        concat (map (\<lambda>outputType.
                  concat (map (\<lambda>targets. concat (map (targetErrors w sourceNode) targets))
                            (snd outputType)))
                  outputs))"

definition validateWorkflowHandler :: "ValidateArgs \<Rightarrow> Remote \<Rightarrow> JsError + ValidationReport" where
  "validateWorkflowHandler args r =
     (case getWorkflow r (va_id args) of
        Inl e \<Rightarrow> Inl e
      | Inr w \<Rightarrow>
          (let errs =
                 (if enabledCheck (options args) validateNodes
                  then concat (map nodeErrors (nodes w)) else []) @
                 (if enabledCheck (options args) validateConnections
                  then concat (map (sourceErrors w) (connections w)) else []);
               warns =
                 (if enabledCheck (options args) validateNodes
                  then concat (map nodeWarnings (nodes w)) else [])
           in if enabledCheck (options args) validateExpressions \<and> None \<in> set (map parameters (nodes w))
              then Inl TypeError
              else (case summaryTriggerNodes w of
                      Inl e \<Rightarrow> Inl e
                    | Inr trig \<Rightarrow>
                        Inr \<lparr>vr_workflowId = va_id args,
                             vr_workflowName = w_name w,
                             valid = (errs = []),
                             summary =
                               \<lparr>totalNodes = length (nodes w),
                                enabledNodes = length (filter (\<lambda>n. \<not> truthyBool (disabled n)) (nodes w)),
                                triggerNodes = trig,
                                errorCount = length errs,
                                warningCount = length warns\<rparr>,
                             errors = errs,
                             warnings = warns\<rparr>)))"

section \<open>Autofix Engine: autofixWorkflowHandler (src/index.ts)\<close>

text \<open>The class \<open>\s\<close> of a regular expression, on code units below 256.\<close>

definition isSpace :: "char \<Rightarrow> bool" where
  "isSpace c = (c \<in> set [CHR 0x09, CHR 0x0A, CHR 0x0B, CHR 0x0C, CHR 0x0D, CHR 0x20, CHR 0xA0])"

text \<open>
  The regular expression \<open>/\{\{\s*[^{=][^}]*\}\}/\<close>. \<open>afterBraces s\<close> holds when
  \<open>\s*[^{=][^}]*\}\}\<close> matches a prefix of \<open>s\<close>: after some of the leading whitespace
  comes one character other than an opening brace and an equals sign, then the longest
  run of characters other than a closing brace, then two closing braces.
  \<open>badExpressions s\<close> holds when \<open>s.match(...)\<close> is not null.
\<close>

fun afterBraces :: "string \<Rightarrow> bool" where
  "afterBraces [] = False"
| "afterBraces (c # cs) =
     ((c \<noteq> CHR ''{'' \<and> c \<noteq> CHR ''='' \<and> startsWith (dropWhile (\<lambda>d. d \<noteq> CHR ''}'') cs) ''}}'')
      \<or> (isSpace c \<and> afterBraces cs))"

fun badExpressions :: "string \<Rightarrow> bool" where
  "badExpressions [] = False"
| "badExpressions (c # cs) = ((startsWith (c # cs) ''{{'' \<and> afterBraces (drop 1 cs)) \<or> badExpressions cs)"

text \<open>\<open>String.prototype.toLowerCase\<close> on code units below 256.\<close>

definition toLowerChar :: "char \<Rightarrow> char" where
  "toLowerChar c =
     (let k = (of_char c :: nat)
      in if (65 \<le> k \<and> k \<le> 90) \<or> (192 \<le> k \<and> k \<le> 222 \<and> k \<noteq> 215) then char_of (k + 32) else c)"

definition toLowerCase :: "string \<Rightarrow> string" where
  "toLowerCase s = map toLowerChar s"

text \<open>\<open>s.replace(/\s+/g, '-')\<close>; the flag says that the previous character was whitespace.\<close>

fun replaceSpaces :: "bool \<Rightarrow> string \<Rightarrow> string" where
  "replaceSpaces inRun [] = []"
| "replaceSpaces inRun (c # cs) =
     (if isSpace c
      then (if inRun then replaceSpaces True cs else CHR ''-'' # replaceSpaces True cs)
      else c # replaceSpaces False cs)"

record Fix =
  fx_node :: "string option"
  fx_type :: string
  fx_issue :: string
  fx_fix :: string
  fx_confidence :: string

definition expressionFix :: "WorkflowNode \<Rightarrow> Fix" where
  "expressionFix n =
     \<lparr>fx_node = n_name n, fx_type = ''expression-format'',
      fx_issue = ''Expression missing = prefix'', fx_fix = ''Add = prefix to expression'',
      fx_confidence = ''high''\<rparr>"

definition typeVersionFix :: "WorkflowNode \<Rightarrow> Fix" where
  "typeVersionFix n =
     \<lparr>fx_node = n_name n, fx_type = ''typeversion-missing'',
      fx_issue = ''Node missing typeVersion'', fx_fix = ''Add typeVersion: 1'',
      fx_confidence = ''high''\<rparr>"

definition webhookFix :: "string \<Rightarrow> Fix" where
  "webhookFix nm =
     \<lparr>fx_node = Some nm, fx_type = ''webhook-missing-path'',
      fx_issue = ''Webhook node missing path'',
      fx_fix = ''Add path: '' @ [CHR 0x22] @ replaceSpaces False (toLowerCase nm) @ [CHR 0x22],
      fx_confidence = ''medium''\<rparr>"

text \<open>
  Detector 1. \<open>JSON.stringify(undefined)\<close> is \<open>undefined\<close>, whose \<open>match\<close> raises a
  TypeError.
\<close>

fun expressionFixes :: "WorkflowNode list \<Rightarrow> JsError + Fix list" where
  "expressionFixes [] = Inr []"
| "expressionFixes (n # ns) =
     (case parameters n of
        None \<Rightarrow> Inl TypeError
      | Some p \<Rightarrow>
          (case expressionFixes ns of
             Inl e \<Rightarrow> Inl e
           | Inr fs \<Rightarrow> Inr ((if badExpressions (p_json p) then [expressionFix n] else []) @ fs)))"

text \<open>Detector 2: \<open>!node.typeVersion\<close>.\<close>

definition typeVersionFixes :: "WorkflowNode list \<Rightarrow> Fix list" where
  "typeVersionFixes ns = map typeVersionFix (filter (\<lambda>n. \<not> truthyNum (typeVersion n)) ns)"

text \<open>\<open>!node.parameters?.path\<close>.\<close>

definition missingPath :: "WorkflowNode \<Rightarrow> bool" where
  "missingPath n = (case parameters n of None \<Rightarrow> True | Some p \<Rightarrow> \<not> truthyStr (p_path p))"

text \<open>
  Detector 3. An absent \<open>type\<close> raises at \<open>includes\<close>, an absent \<open>name\<close> at
  \<open>toLowerCase\<close>.
\<close>

fun webhookFixes :: "WorkflowNode list \<Rightarrow> JsError + Fix list" where
  "webhookFixes [] = Inr []"
| "webhookFixes (n # ns) =
     (case n_type n of
        None \<Rightarrow> Inl TypeError
      | Some t \<Rightarrow>
          if str_includes t ''Webhook'' \<and> missingPath n
          then (case n_name n of
                  None \<Rightarrow> Inl TypeError
                | Some nm \<Rightarrow>
                    (case webhookFixes ns of
                       Inl e \<Rightarrow> Inl e
                     | Inr fs \<Rightarrow> Inr (webhookFix nm # fs)))
          else webhookFixes ns)"

text \<open>The three detector loops in order; \<open>fixes\<close> collects their findings.\<close>

definition detectFixes :: "Workflow \<Rightarrow> JsError + Fix list" where
  "detectFixes w =
     (case expressionFixes (nodes w) of
        Inl e \<Rightarrow> Inl e
      | Inr f1 \<Rightarrow>
          (case webhookFixes (nodes w) of
             Inl e \<Rightarrow> Inl e
           | Inr f3 \<Rightarrow> Inr (f1 @ typeVersionFixes (nodes w) @ f3)))"

text \<open>
  The loop over \<open>fixes\<close> when \<open>applyFixes\<close> is set: \<open>workflow.nodes.find\<close> by name, and
  a mutation of the node found for the one fix type that the switch lists. The pair is
  the node array and the flag \<open>modified\<close>.
\<close>

fun applyFixLoop :: "Fix list \<Rightarrow> WorkflowNode list \<times> bool \<Rightarrow> WorkflowNode list \<times> bool" where
  "applyFixLoop [] st = st"
| "applyFixLoop (f # fs) (ns, m) =
     (case findIndex (\<lambda>n. n_name n = fx_node f) ns of
        None \<Rightarrow> applyFixLoop fs (ns, m)
      | Some k \<Rightarrow>
          if fx_type f = ''typeversion-missing''
          then applyFixLoop fs (ns[k := (ns ! k)\<lparr>typeVersion := Some 1\<rparr>], True)
          else applyFixLoop fs (ns, m))"

record AutofixArgs =
  af_id :: string
  applyFixes :: "bool option"
  fixTypes :: "string list option"
  confidenceThreshold :: "string option"
  maxFixes :: "nat option"

text \<open>The JSON body of the response of the handler, without its \<open>message\<close> text.\<close>

record AutofixReport =
  ar_workflowId :: string
  ar_workflowName :: string
  fixesFound :: nat
  fixesApplied :: nat
  ar_fixes :: "Fix list"

definition autofixWorkflowHandler :: "AutofixArgs \<Rightarrow> Remote \<Rightarrow> (JsError + AutofixReport) \<times> Remote" where
  "autofixWorkflowHandler args r =
     (case getWorkflow r (af_id args) of
        Inl e \<Rightarrow> (Inl e, r)
      | Inr w \<Rightarrow>
          (case detectFixes w of
             Inl e \<Rightarrow> (Inl e, r)
           | Inr fs \<Rightarrow>
               (let report =
                      \<lparr>ar_workflowId = af_id args, ar_workflowName = w_name w,
                       fixesFound = length fs,
                       fixesApplied = (if truthyBool (applyFixes args) then length fs else 0),
                       ar_fixes = fs\<rparr>
                in if truthyBool (applyFixes args)
                   then (case applyFixLoop fs (nodes w, False) of
                           (ns, m) \<Rightarrow>
                             if m
                             then (case updateWorkflow r (af_id args) (w\<lparr>nodes := ns\<rparr>) of
                                     Inl e \<Rightarrow> (Inl e, r)
                                   | Inr r' \<Rightarrow> (Inr report, r'))
                             else (Inr report, r))
                   else (Inr report, r))))"

section \<open>Reading results\<close>

text \<open>
  The counts and the two lists of the body of a response of updatePartialWorkflowHandler
  (wouldApply, wouldFail, operations, failures, or applied, failed, operations, failures);
  an error response has none.
\<close>

fun body :: "PartialResponse \<Rightarrow> (nat \<times> nat \<times> AppliedRecord list \<times> FailedRecord list) option" where
  "body (Validated a f ops fs) = Some (a, f, ops, fs)"
| "body (Updated wid a f ops fs) = Some (a, f, ops, fs)"
| "body (Failed e) = None"

text \<open>The node array after one operation, when the operation does not throw.\<close>

definition nodesAfter :: "nat \<Rightarrow> Operation \<Rightarrow> Workflow \<Rightarrow> WorkflowNode list option" where
  "nodesAfter i op w = (case applyOp i op w of Inl msg \<Rightarrow> None | Inr p \<Rightarrow> Some (nodes (fst p)))"

text \<open>A node after the typeVersion repair: a falsy typeVersion becomes 1.\<close>

definition setTypeVersion :: "WorkflowNode \<Rightarrow> WorkflowNode" where
  "setTypeVersion n = (if truthyNum (typeVersion n) then n else n\<lparr>typeVersion := Some 1\<rparr>)"

text \<open>
  The graph that best-effort application leaves, from index \<open>i\<close> on: each operation is
  applied to the graph left by the operations before it, and an operation that throws
  leaves the graph as it is.
\<close>

fun workingCopy :: "nat \<Rightarrow> Operation list \<Rightarrow> Workflow \<Rightarrow> Workflow" where
  "workingCopy i [] w = w"
| "workingCopy i (op # ops) w =
     (case applyOp i op w of
        Inl msg \<Rightarrow> workingCopy (Suc i) ops w
      | Inr p \<Rightarrow> workingCopy (Suc i) ops (fst p))"

text \<open>
  The node at index \<open>j\<close> is targeted when some fix of type typeversion-missing names a
  node and \<open>j\<close> is the first index of a node of that name. \<open>repaired\<close> is the node array
  in which exactly the targeted nodes have typeVersion 1.
\<close>

definition targeted :: "Fix list \<Rightarrow> WorkflowNode list \<Rightarrow> nat \<Rightarrow> bool" where
  "targeted fs ns j =
     list_ex (\<lambda>f. fx_type f = ''typeversion-missing'' \<and>
                  findIndex (\<lambda>n. n_name n = fx_node f) ns = Some j) fs"

definition repaired :: "Fix list \<Rightarrow> WorkflowNode list \<Rightarrow> WorkflowNode list" where
  "repaired fs ns =
     map (\<lambda>j. if targeted fs ns j then (ns ! j)\<lparr>typeVersion := Some 1\<rparr> else ns ! j)
       [0 ..< length ns]"

section \<open>Example graphs and requests\<close>

text \<open>The object without keys, as a node and as a patch.\<close>

definition emptyNode :: WorkflowNode where
  "emptyNode =
     \<lparr>n_id = None, n_name = None, n_type = None, typeVersion = None, position = None,
      parameters = None, disabled = None\<rparr>"

text \<open>An operation that carries its type only.\<close>

definition operation :: "string \<Rightarrow> Operation" where
  "operation ty =
     \<lparr>op_type = ty, op_node = emptyNode, nodeId = None, nodeName = None, updates = emptyNode,
      op_name = [], op_settings = Map.empty\<rparr>"

text \<open>The graph of the examples of the specification: one node, id a, name Start.\<close>

definition startGraph :: Workflow where
  "startGraph =
     \<lparr>w_name = ''My workflow'',
      nodes = [emptyNode\<lparr>n_id := Some ''a'', n_name := Some ''Start''\<rparr>],
      connections = [], settings = None\<rparr>"

definition startRemote :: Remote where
  "startRemote = \<lparr>store = [''wf1'' \<mapsto> startGraph], writes = []\<rparr>"

text \<open>A complete node with empty parameters.\<close>

definition plainNode :: "string \<Rightarrow> string \<Rightarrow> string \<Rightarrow> WorkflowNode" where
  "plainNode i nm ty =
     \<lparr>n_id = Some i, n_name = Some nm, n_type = Some ty, typeVersion = Some 1,
      position = Some [0, 0], parameters = Some \<lparr>p_json = ''{}'', p_path = None\<rparr>,
      disabled = None\<rparr>"

text \<open>Two nodes A and B, without a connection and with the connection from A to B.\<close>

definition abGraph :: Workflow where
  "abGraph =
     \<lparr>w_name = ''Pipeline'',
      nodes = [plainNode ''1'' ''A'' ''n8n-nodes-base.manualTrigger'',
               plainNode ''2'' ''B'' ''n8n-nodes-base.set''],
      connections = [], settings = None\<rparr>"

definition abLinked :: Workflow where
  "abLinked =
     abGraph\<lparr>connections :=
       [(''A'', [(''main'', [[\<lparr>c_node = ''B'', c_type = ''main'', c_index = 0\<rparr>]])])]\<rparr>"

text \<open>A node with an id named Target, then a node without an id named Other.\<close>

definition idlessGraph :: Workflow where
  "idlessGraph =
     \<lparr>w_name = ''Imported'',
      nodes = [plainNode ''1'' ''Target'' ''n8n-nodes-base.set'',
               (plainNode [] ''Other'' ''n8n-nodes-base.set'')\<lparr>n_id := None\<rparr>],
      connections = [], settings = None\<rparr>"

text \<open>One node whose type carries the schedule marker and no other marker.\<close>

definition scheduleGraph :: Workflow where
  "scheduleGraph =
     \<lparr>w_name = ''Hourly'',
      nodes = [plainNode ''1'' ''Every hour'' ''n8n-nodes-community.Schedule''],
      connections = [], settings = None\<rparr>"

text \<open>A dry run with one mutating, one failing and one unknown operation.\<close>

definition dryRunArgs :: PartialArgs where
  "dryRunArgs =
     \<lparr>pa_id = ''wf1'',
      operations = [(operation ''addNode'')\<lparr>op_node := plainNode ''2'' ''Next'' ''n8n-nodes-base.set''\<rparr>,
                    (operation ''removeNode'')\<lparr>nodeName := Some ''Missing''\<rparr>,
                    operation ''moveNode''],
      validateOnly = Some True, continueOnError = Some True\<rparr>"

text \<open>A best-effort batch: a failure first, then a success, then an unknown type.\<close>

definition bestEffortArgs :: PartialArgs where
  "bestEffortArgs =
     \<lparr>pa_id = ''wf1'',
      operations = [(operation ''removeNode'')\<lparr>nodeName := Some ''Missing''\<rparr>,
                    (operation ''disableNode'')\<lparr>nodeName := Some ''Start''\<rparr>,
                    operation ''moveNode''],
      validateOnly = None, continueOnError = Some True\<rparr>"

text \<open>Two nodes of the same name, both without typeVersion.\<close>

definition dupGraph :: Workflow where
  "dupGraph =
     \<lparr>w_name = ''Duplicates'',
      nodes = [(plainNode ''1'' ''HTTP Request'' ''n8n-nodes-base.httpRequest'')\<lparr>typeVersion := None\<rparr>,
               (plainNode ''2'' ''HTTP Request'' ''n8n-nodes-base.httpRequest'')\<lparr>typeVersion := None\<rparr>],
      connections = [], settings = None\<rparr>"

text \<open>Three nodes of different names: no typeVersion, typeVersion 1, typeVersion 0.\<close>

definition unversionedGraph :: Workflow where
  "unversionedGraph =
     \<lparr>w_name = ''Unversioned'',
      nodes = [(plainNode ''1'' ''Fetch'' ''n8n-nodes-base.httpRequest'')\<lparr>typeVersion := None\<rparr>,
               plainNode ''2'' ''Keep'' ''n8n-nodes-base.set'',
               (plainNode ''3'' ''Store'' ''n8n-nodes-base.set'')\<lparr>typeVersion := Some 0\<rparr>],
      connections = [], settings = None\<rparr>"

text \<open>
  A webhook node without a path, and a node without typeVersion whose parameters hold an
  expression without the equals sign.
\<close>

definition mixedGraph :: Workflow where
  "mixedGraph =
     \<lparr>w_name = ''Mixed'',
      nodes = [plainNode ''1'' ''My  Hook'' ''n8n-nodes-base.formWebhook'',
               (plainNode ''2'' ''Fetch'' ''n8n-nodes-base.httpRequest'')
                 \<lparr>typeVersion := None,
                  parameters := Some \<lparr>p_json = ''{'' @ [CHR 0x22] @ ''url'' @ [CHR 0x22] @ '':'' @
                                         [CHR 0x22] @ ''{{ $json.url }}'' @ [CHR 0x22] @ ''}'',
                                       p_path = None\<rparr>\<rparr>],
      connections = [], settings = None\<rparr>"

text \<open>The webhook node without a path alone.\<close>

definition hookGraph :: Workflow where
  "hookGraph =
     \<lparr>w_name = ''Hook only'',
      nodes = [plainNode ''1'' ''My  Hook'' ''n8n-nodes-base.formWebhook''],
      connections = [], settings = None\<rparr>"

definition remoteWith :: "Workflow \<Rightarrow> Remote" where
  "remoteWith w = \<lparr>store = [''wf1'' \<mapsto> w], writes = []\<rparr>"

definition applyArgs :: AutofixArgs where
  "applyArgs = \<lparr>af_id = ''wf1'', applyFixes = Some True, fixTypes = None,
                confidenceThreshold = None, maxFixes = None\<rparr>"

section \<open>Properties of the lookup\<close>

lemma findIndex_first:
  "k < length xs \<Longrightarrow> P (xs ! k) \<Longrightarrow> (\<forall>j<k. \<not> P (xs ! j)) \<Longrightarrow> findIndex P xs = Some k"
proof (induction xs arbitrary: k)
  case Nil
  then show ?case by simp
next
  case (Cons x xs)
  show ?case
  proof (cases k)
    case 0
    with Cons.prems show ?thesis by simp
  next
    case (Suc m)
    with Cons.prems have "\<not> P x" by auto
    moreover have "findIndex P xs = Some m"
      using Cons.prems Suc by (intro Cons.IH) auto
    ultimately show ?thesis using Suc by simp
  qed
qed

lemma findIndex_Some:
  "findIndex P xs = Some k \<Longrightarrow> k < length xs \<and> P (xs ! k) \<and> (\<forall>j<k. \<not> P (xs ! j))"
proof (induction xs arbitrary: k)
  case Nil
  then show ?case by simp
next
  case (Cons x xs)
  show ?case
  proof (cases "P x")
    case True
    with Cons.prems show ?thesis by simp
  next
    case False
    with Cons.prems obtain m where m: "findIndex P xs = Some m" "k = Suc m" by auto
    from Cons.IH [OF m(1)] False m(2) show ?thesis
      by (auto simp: less_Suc_eq_0_disj)
  qed
qed

lemma findIndex_bound: "findIndex P xs = Some k \<Longrightarrow> k < length xs"
  using findIndex_Some by blast

lemma findIndex_iff:
  "(findIndex P xs = Some k) = (k < length xs \<and> P (xs ! k) \<and> (\<forall>j<k. \<not> P (xs ! j)))"
  using findIndex_Some [of P xs k] findIndex_first [of k xs P] by blast

text \<open>What each of the four node operations does to the node array at the index found.\<close>

lemma lookup_effect:
  assumes "lookupNode op w = Some k"
  shows "(op_type op = ''removeNode'' \<longrightarrow> nodesAfter i op w = Some (splice1 k (nodes w))) \<and>
         (op_type op = ''updateNode'' \<longrightarrow>
            nodesAfter i op w = Some ((nodes w)[k := mergeNode (nodes w ! k) (updates op)])) \<and>
         (op_type op = ''enableNode'' \<longrightarrow>
            nodesAfter i op w = Some ((nodes w)[k := (nodes w ! k)\<lparr>disabled := Some False\<rparr>])) \<and>
         (op_type op = ''disableNode'' \<longrightarrow>
            nodesAfter i op w = Some ((nodes w)[k := (nodes w ! k)\<lparr>disabled := Some True\<rparr>]))"
  using assms by (simp add: nodesAfter_def applyOp_def)

text \<open>
  C2 (as stated, refuted). In the graph with node A (id 1) before node B (id 2), the
  operation removeNode with nodeId 2 and nodeName A has a node that matches by id, the
  second one; the lookup returns index 0, the node that matches by name, and that node is
  removed while the node with id 2 stays.
\<close>

theorem removeNode_name_match_before_id_match:
  "n_id (nodes abGraph ! 1) = nodeId ((operation ''removeNode'')\<lparr>nodeId := Some ''2'', nodeName := Some ''A''\<rparr>) \<and>
   lookupNode ((operation ''removeNode'')\<lparr>nodeId := Some ''2'', nodeName := Some ''A''\<rparr>) abGraph = Some 0 \<and>
   nodesAfter 0 ((operation ''removeNode'')\<lparr>nodeId := Some ''2'', nodeName := Some ''A''\<rparr>) abGraph
     = Some [nodes abGraph ! 1]"
  by (simp add: operation_def abGraph_def plainNode_def lookupNode_def matchesNode_def
      nodesAfter_def applyOp_def splice1_def appliedRecord_def)

text \<open>
  C2 (amended). For an operation removeNode, updateNode, enableNode or disableNode that
  supplies both nodeId and nodeName, the lookup returns index k exactly when the node at
  k matches by id or by name and no node before it matches by id or by name: the
  operation targets the first node in sequence order that matches either way. Hence, if
  some node matches by id and no node before it matches by name or by id, that node is
  the target. The target is the node that removeNode deletes, that updateNode merges the
  patch over, and whose disabled flag enableNode and disableNode set; all other nodes keep
  their place and content.
\<close>

theorem lookup_targets_first_match:
  assumes "nodeId op = Some nid" and "nodeName op = Some nm"
  shows "(lookupNode op w = Some k)
           = (k < length (nodes w) \<and>
              (n_id (nodes w ! k) = Some nid \<or> n_name (nodes w ! k) = Some nm) \<and>
              (\<forall>j<k. n_id (nodes w ! j) \<noteq> Some nid \<and> n_name (nodes w ! j) \<noteq> Some nm)) \<and>
         (k < length (nodes w) \<and> n_id (nodes w ! k) = Some nid \<and>
          (\<forall>j<k. n_id (nodes w ! j) \<noteq> Some nid \<and> n_name (nodes w ! j) \<noteq> Some nm)
            \<longrightarrow> lookupNode op w = Some k) \<and>
         (lookupNode op w = Some k \<longrightarrow>
            (op_type op = ''removeNode'' \<longrightarrow> nodesAfter i op w = Some (splice1 k (nodes w))) \<and>
            (op_type op = ''updateNode'' \<longrightarrow>
               nodesAfter i op w = Some ((nodes w)[k := mergeNode (nodes w ! k) (updates op)])) \<and>
            (op_type op = ''enableNode'' \<longrightarrow>
               nodesAfter i op w = Some ((nodes w)[k := (nodes w ! k)\<lparr>disabled := Some False\<rparr>])) \<and>
            (op_type op = ''disableNode'' \<longrightarrow>
               nodesAfter i op w = Some ((nodes w)[k := (nodes w ! k)\<lparr>disabled := Some True\<rparr>])))"
proof -
  have iff: "(lookupNode op w = Some k)
           = (k < length (nodes w) \<and>
              (n_id (nodes w ! k) = Some nid \<or> n_name (nodes w ! k) = Some nm) \<and>
              (\<forall>j<k. n_id (nodes w ! j) \<noteq> Some nid \<and> n_name (nodes w ! j) \<noteq> Some nm))"
    unfolding lookupNode_def findIndex_iff using assms by (simp add: matchesNode_def)
  from iff
  have idc: "k < length (nodes w) \<and> n_id (nodes w ! k) = Some nid \<and>
          (\<forall>j<k. n_id (nodes w ! j) \<noteq> Some nid \<and> n_name (nodes w ! j) \<noteq> Some nm)
            \<longrightarrow> lookupNode op w = Some k"
    by blast
  from iff idc lookup_effect [of op w k i] show ?thesis by blast
qed

text \<open>
  C2 (amended), at disableNode with nodeId 2 and nodeName A on the graph of A (id 1) and
  B (id 2): the first match is the node A, by name, and it is the node disabled, although
  the node B matches by id.
\<close>

theorem lookup_targets_first_match_witness:
  "nodeId ((operation ''disableNode'')\<lparr>nodeId := Some ''2'', nodeName := Some ''A''\<rparr>) = Some ''2'' \<and>
   nodeName ((operation ''disableNode'')\<lparr>nodeId := Some ''2'', nodeName := Some ''A''\<rparr>) = Some ''A'' \<and>
   n_id (nodes abGraph ! 1) = Some ''2'' \<and> n_id (nodes abGraph ! 0) \<noteq> Some ''2'' \<and>
   lookupNode ((operation ''disableNode'')\<lparr>nodeId := Some ''2'', nodeName := Some ''A''\<rparr>) abGraph = Some 0 \<and>
   nodesAfter 0 ((operation ''disableNode'')\<lparr>nodeId := Some ''2'', nodeName := Some ''A''\<rparr>) abGraph
     = Some [(nodes abGraph ! 0)\<lparr>disabled := Some True\<rparr>, nodes abGraph ! 1]"
proof -
  let ?op = "(operation ''disableNode'')\<lparr>nodeId := Some ''2'', nodeName := Some ''A''\<rparr>"
  have a: "nodeId ?op = Some ''2''" "nodeName ?op = Some ''A''" "op_type ?op = ''disableNode''"
    by (simp_all add: operation_def)
  have b: "(0::nat) < length (nodes abGraph)" "n_name (nodes abGraph ! 0) = Some ''A''"
    "n_id (nodes abGraph ! 1) = Some ''2''" "n_id (nodes abGraph ! 0) \<noteq> Some ''2''"
    by (simp_all add: abGraph_def plainNode_def)
  have d: "(nodes abGraph)[0 := (nodes abGraph ! 0)\<lparr>disabled := Some True\<rparr>]
             = [(nodes abGraph ! 0)\<lparr>disabled := Some True\<rparr>, nodes abGraph ! 1]"
    by (simp add: abGraph_def)
  note t = lookup_targets_first_match [OF a(1) a(2), of abGraph 0 0]
  from t b have l: "lookupNode ?op abGraph = Some 0" by simp
  with t a(3) d have "nodesAfter 0 ?op abGraph
     = Some [(nodes abGraph ! 0)\<lparr>disabled := Some True\<rparr>, nodes abGraph ! 1]"
    by simp
  with a b l show ?thesis by simp
qed

text \<open>
  C9 (as stated, refuted). In the graph with node Target (id 1) before node Other (no
  id), the operation removeNode with nodeName Target and no nodeId does not select the
  node without id: the lookup returns index 0, the node that has the name, and the node
  without id stays.
\<close>

theorem named_node_before_idless_node:
  "nodeId ((operation ''removeNode'')\<lparr>nodeName := Some ''Target''\<rparr>) = None \<and>
   n_id (nodes idlessGraph ! 1) = None \<and> n_id (nodes idlessGraph ! 0) \<noteq> None \<and>
   lookupNode ((operation ''removeNode'')\<lparr>nodeName := Some ''Target''\<rparr>) idlessGraph = Some 0 \<and>
   nodesAfter 0 ((operation ''removeNode'')\<lparr>nodeName := Some ''Target''\<rparr>) idlessGraph
     = Some [nodes idlessGraph ! 1]"
  by (simp add: operation_def idlessGraph_def plainNode_def lookupNode_def matchesNode_def
      nodesAfter_def applyOp_def splice1_def appliedRecord_def)

text \<open>
  C9 (amended). For an operation removeNode, updateNode, enableNode or disableNode without
  nodeId, the lookup matches every node without id as well as every node with the supplied
  name, and it returns index k exactly when the node at k is the first node in sequence
  order that matches. So the first node without id is selected and deleted or mutated,
  whatever its name, provided that no node before it has the supplied name.
\<close>

theorem lookup_without_id:
  assumes "nodeId op = None"
  shows "matchesNode op n = (n_id n = None \<or> n_name n = nodeName op) \<and>
         (lookupNode op w = Some k)
           = (k < length (nodes w) \<and>
              (n_id (nodes w ! k) = None \<or> n_name (nodes w ! k) = nodeName op) \<and>
              (\<forall>j<k. n_id (nodes w ! j) \<noteq> None \<and> n_name (nodes w ! j) \<noteq> nodeName op)) \<and>
         (k < length (nodes w) \<and> n_id (nodes w ! k) = None \<and>
          (\<forall>j<k. n_id (nodes w ! j) \<noteq> None \<and> n_name (nodes w ! j) \<noteq> nodeName op)
            \<longrightarrow> lookupNode op w = Some k) \<and>
         (lookupNode op w = Some k \<longrightarrow>
            (op_type op = ''removeNode'' \<longrightarrow> nodesAfter i op w = Some (splice1 k (nodes w))) \<and>
            (op_type op = ''updateNode'' \<longrightarrow>
               nodesAfter i op w = Some ((nodes w)[k := mergeNode (nodes w ! k) (updates op)])) \<and>
            (op_type op = ''enableNode'' \<longrightarrow>
               nodesAfter i op w = Some ((nodes w)[k := (nodes w ! k)\<lparr>disabled := Some False\<rparr>])) \<and>
            (op_type op = ''disableNode'' \<longrightarrow>
               nodesAfter i op w = Some ((nodes w)[k := (nodes w ! k)\<lparr>disabled := Some True\<rparr>])))"
proof -
  have m: "matchesNode op n = (n_id n = None \<or> n_name n = nodeName op)"
    using assms by (simp add: matchesNode_def)
  have iff: "(lookupNode op w = Some k)
           = (k < length (nodes w) \<and>
              (n_id (nodes w ! k) = None \<or> n_name (nodes w ! k) = nodeName op) \<and>
              (\<forall>j<k. n_id (nodes w ! j) \<noteq> None \<and> n_name (nodes w ! j) \<noteq> nodeName op))"
    unfolding lookupNode_def findIndex_iff using assms by (simp add: matchesNode_def)
  from iff
  have idc: "k < length (nodes w) \<and> n_id (nodes w ! k) = None \<and>
          (\<forall>j<k. n_id (nodes w ! j) \<noteq> None \<and> n_name (nodes w ! j) \<noteq> nodeName op)
            \<longrightarrow> lookupNode op w = Some k"
    by blast
  from m iff idc lookup_effect [of op w k i] show ?thesis by blast
qed

text \<open>
  C9 (amended), on the graph of Target (id 1) and Other (no id). disableNode with nodeName
  Target selects the node Target, the first match, by name. enableNode with nodeName
  Missing selects the node Other, which has no id, although its name differs.
\<close>

theorem lookup_without_id_witness:
  "nodeId ((operation ''disableNode'')\<lparr>nodeName := Some ''Target''\<rparr>) = None \<and>
   nodeId ((operation ''enableNode'')\<lparr>nodeName := Some ''Missing''\<rparr>) = None \<and>
   n_id (nodes idlessGraph ! 0) \<noteq> None \<and> n_id (nodes idlessGraph ! 1) = None \<and>
   n_name (nodes idlessGraph ! 1) \<noteq> Some ''Missing'' \<and>
   lookupNode ((operation ''disableNode'')\<lparr>nodeName := Some ''Target''\<rparr>) idlessGraph = Some 0 \<and>
   nodesAfter 0 ((operation ''disableNode'')\<lparr>nodeName := Some ''Target''\<rparr>) idlessGraph
     = Some [(nodes idlessGraph ! 0)\<lparr>disabled := Some True\<rparr>, nodes idlessGraph ! 1] \<and>
   lookupNode ((operation ''enableNode'')\<lparr>nodeName := Some ''Missing''\<rparr>) idlessGraph = Some 1 \<and>
   nodesAfter 0 ((operation ''enableNode'')\<lparr>nodeName := Some ''Missing''\<rparr>) idlessGraph
     = Some [nodes idlessGraph ! 0, (nodes idlessGraph ! 1)\<lparr>disabled := Some False\<rparr>]"
proof -
  let ?d = "(operation ''disableNode'')\<lparr>nodeName := Some ''Target''\<rparr>"
  let ?e = "(operation ''enableNode'')\<lparr>nodeName := Some ''Missing''\<rparr>"
  have a: "nodeId ?d = None" "nodeName ?d = Some ''Target''" "op_type ?d = ''disableNode''"
    "nodeId ?e = None" "nodeName ?e = Some ''Missing''" "op_type ?e = ''enableNode''"
    by (simp_all add: operation_def)
  have b: "length (nodes idlessGraph) = 2" "n_id (nodes idlessGraph ! 0) \<noteq> None"
    "n_id (nodes idlessGraph ! 1) = None" "n_name (nodes idlessGraph ! 0) = Some ''Target''"
    "n_name (nodes idlessGraph ! 1) \<noteq> Some ''Missing''"
    by (simp_all add: idlessGraph_def plainNode_def)
  have c: "\<forall>j<(1::nat). n_id (nodes idlessGraph ! j) \<noteq> None \<and> n_name (nodes idlessGraph ! j) \<noteq> nodeName ?e"
    by (simp add: idlessGraph_def plainNode_def operation_def)
  have d: "(nodes idlessGraph)[0 := (nodes idlessGraph ! 0)\<lparr>disabled := Some True\<rparr>]
             = [(nodes idlessGraph ! 0)\<lparr>disabled := Some True\<rparr>, nodes idlessGraph ! 1]"
    "(nodes idlessGraph)[1 := (nodes idlessGraph ! 1)\<lparr>disabled := Some False\<rparr>]
             = [nodes idlessGraph ! 0, (nodes idlessGraph ! 1)\<lparr>disabled := Some False\<rparr>]"
    by (simp_all add: idlessGraph_def)
  note t0 = lookup_without_id [OF a(1), of emptyNode idlessGraph 0 0]
  note t1 = lookup_without_id [OF a(4), of emptyNode idlessGraph 1 0]
  from t0 a b have l0: "lookupNode ?d idlessGraph = Some 0" by simp
  from t1 a b c have l1: "lookupNode ?e idlessGraph = Some 1" by simp
  from t0 l0 a(3) d(1) have n0: "nodesAfter 0 ?d idlessGraph
     = Some [(nodes idlessGraph ! 0)\<lparr>disabled := Some True\<rparr>, nodes idlessGraph ! 1]" by simp
  from t1 l1 a(6) d(2) have n1: "nodesAfter 0 ?e idlessGraph
     = Some [nodes idlessGraph ! 0, (nodes idlessGraph ! 1)\<lparr>disabled := Some False\<rparr>]" by simp
  from a b l0 l1 n0 n1 show ?thesis by simp
qed


section \<open>Properties of the Operation Engine\<close>

lemma applyOp_index:
  "applyOp i op w = Inr (w', a) \<Longrightarrow>
     a_index a = i \<and> a_type a = op_type op \<and> op_type op \<notin> {''moveNode'', ''addTag'', ''removeTag''}"
  by (auto simp: applyOp_def appliedRecord_def split: if_splits option.splits)

lemma upt_step: "mset [i ..< i + Suc n] = add_mset i (mset [Suc i ..< Suc i + n])"
proof -
  have "[i ..< i + Suc n] = i # [Suc i ..< Suc i + n]"
    by (simp add: upt_conv_Cons)
  then show ?thesis by (simp only: mset.simps)
qed

text \<open>
  Under continueOnError the loop passes every index to exactly one of the two lists: the
  indices recorded from \<open>i\<close> on are, as a multiset, the indices of the operations.
\<close>

lemma runOps_indices:
  "mset (map a_index (applied (runOps True i ops st))) +
   mset (map f_index (failed (runOps True i ops st)))
     = mset (map a_index (applied st)) + mset (map f_index (failed st)) +
       mset [i ..< i + length ops]"
proof (induction ops arbitrary: i st)
  case Nil
  then show ?case by simp
next
  case (Cons op ops)
  have len: "length (op # ops) = Suc (length ops)" by simp
  show ?case
  proof (cases "applyOp i op (workflow st)")
    case (Inl msg)
    then show ?thesis
      unfolding len upt_step using Cons.IH [of "Suc i"] by simp
  next
    case (Inr p)
    obtain w' a where p: "p = (w', a)" by (cases p)
    with Inr have "a_index a = i" using applyOp_index by blast
    with Inr p show ?thesis
      unfolding len upt_step using Cons.IH [of "Suc i"] by simp
  qed
qed

lemma runOps_lengths:
  "length (applied (runOps True i ops st)) + length (failed (runOps True i ops st))
     = length (applied st) + length (failed st) + length ops"
  by (induction ops arbitrary: i st) (auto split: sum.splits)

text \<open>The best-effort loop over a concatenation, its working copy, and its two growing lists.\<close>

lemma runOps_append:
  "runOps True i (xs @ ys) st = runOps True (i + length xs) ys (runOps True i xs st)"
  by (induction xs arbitrary: i st) (auto split: sum.splits)

lemma runOps_workflow:
  "workflow (runOps True i ops st) = workingCopy i ops (workflow st)"
  by (induction ops arbitrary: i st) (auto split: sum.splits)

lemma runOps_keeps:
  "set (applied st) \<subseteq> set (applied (runOps True i ops st)) \<and>
   set (failed st) \<subseteq> set (failed (runOps True i ops st))"
proof (induction ops arbitrary: i st)
  case Nil
  then show ?case by simp
next
  case (Cons op ops)
  show ?case
  proof (cases "applyOp i op (workflow st)")
    case (Inl msg)
    with Cons.IH [where i = "Suc i" and
        st = "st\<lparr>failed := failed st @ [\<lparr>f_index = i, f_type = op_type op, f_error = msg\<rparr>]\<rparr>"]
    show ?thesis by auto
  next
    case (Inr p)
    obtain w' a where p: "p = (w', a)" by (cases p)
    with Inr Cons.IH [where i = "Suc i" and
        st = "st\<lparr>workflow := w', applied := applied st @ [a], modified := True\<rparr>"]
    show ?thesis by auto
  qed
qed

lemma runOps_attempts:
  assumes "k < length ops"
  shows "case applyOp k (ops ! k) (workingCopy 0 (take k ops) (workflow st)) of
           Inl msg \<Rightarrow> \<lparr>f_index = k, f_type = op_type (ops ! k), f_error = msg\<rparr>
                        \<in> set (failed (runOps True 0 ops st))
         | Inr p \<Rightarrow> snd p \<in> set (applied (runOps True 0 ops st))"
proof -
  let ?pre = "runOps True 0 (take k ops) st"
  have split: "ops = take k ops @ (ops ! k # drop (Suc k) ops)"
    using assms by (simp add: id_take_nth_drop [symmetric])
  have len: "length (take k ops) = k" using assms by simp
  have "runOps True 0 ops st = runOps True 0 (take k ops @ (ops ! k # drop (Suc k) ops)) st"
    using split by simp
  also have "\<dots> = runOps True (0 + length (take k ops)) (ops ! k # drop (Suc k) ops) ?pre"
    by (rule runOps_append)
  also have "\<dots> = runOps True k (ops ! k # drop (Suc k) ops) ?pre"
    by (simp only: len add_0)
  finally have final: "runOps True 0 ops st = runOps True k (ops ! k # drop (Suc k) ops) ?pre" .
  have wc: "workflow ?pre = workingCopy 0 (take k ops) (workflow st)"
    by (rule runOps_workflow)
  show ?thesis
  proof (cases "applyOp k (ops ! k) (workflow ?pre)")
    case (Inl msg)
    let ?st' = "?pre\<lparr>failed := failed ?pre @ [\<lparr>f_index = k, f_type = op_type (ops ! k), f_error = msg\<rparr>]\<rparr>"
    from Inl final have "runOps True 0 ops st = runOps True (Suc k) (drop (Suc k) ops) ?st'"
      by simp
    moreover have "\<lparr>f_index = k, f_type = op_type (ops ! k), f_error = msg\<rparr> \<in> set (failed ?st')"
      by simp
    ultimately have "\<lparr>f_index = k, f_type = op_type (ops ! k), f_error = msg\<rparr>
                       \<in> set (failed (runOps True 0 ops st))"
      using runOps_keeps [of ?st' "Suc k" "drop (Suc k) ops"] by auto
    with Inl wc show ?thesis by simp
  next
    case (Inr p)
    obtain w' a where p: "p = (w', a)" by (cases p)
    let ?st' = "?pre\<lparr>workflow := w', applied := applied ?pre @ [a], modified := True\<rparr>"
    from Inr p final have "runOps True 0 ops st = runOps True (Suc k) (drop (Suc k) ops) ?st'"
      by simp
    moreover have "a \<in> set (applied ?st')" by simp
    ultimately have "a \<in> set (applied (runOps True 0 ops st))"
      using runOps_keeps [of ?st' "Suc k" "drop (Suc k) ops"] by auto
    with Inr p wc show ?thesis by simp
  qed
qed

lemma index_once:
  assumes "mset xs + mset ys = mset [0 ..< n]"
  shows "k \<in> set xs \<Longrightarrow> k \<notin> set ys" and "k \<in> set ys \<Longrightarrow> k \<notin> set xs"
proof -
  have le: "count (mset xs) k + count (mset ys) k \<le> 1"
  proof -
    have "count (mset xs) k + count (mset ys) k = count (mset [0 ..< n]) k"
      using assms by (metis count_union)
    also have "\<dots> \<le> 1"
      using distinct_count_atmost_1 [of "[0 ..< n]"] by simp
    finally show ?thesis .
  qed
  show "k \<in> set xs \<Longrightarrow> k \<notin> set ys"
  proof
    assume "k \<in> set xs" "k \<in> set ys"
    then have "count (mset xs) k \<ge> 1" "count (mset ys) k \<ge> 1"
      by simp_all
    with le show False by simp
  qed
  show "k \<in> set ys \<Longrightarrow> k \<notin> set xs"
  proof
    assume "k \<in> set ys" "k \<in> set xs"
    then have "count (mset xs) k \<ge> 1" "count (mset ys) k \<ge> 1"
      by simp_all
    with le show False by simp
  qed
qed


text \<open>No record of an operation of a type outside the switch enters the applied list.\<close>

lemma runOps_applied_types:
  "a \<in> set (applied (runOps coe i ops st)) \<Longrightarrow>
     a \<in> set (applied st) \<or> a_type a \<notin> {''moveNode'', ''addTag'', ''removeTag''}"
proof (induction ops arbitrary: i st)
  case Nil
  then show ?case by simp
next
  case (Cons op ops)
  show ?case
  proof (cases "applyOp i op (workflow st)")
    case (Inl msg)
    define st' where
      "st' = st\<lparr>failed := failed st @ [\<lparr>f_index = i, f_type = op_type op, f_error = msg\<rparr>]\<rparr>"
    have same: "applied st' = applied st" by (simp add: st'_def)
    show ?thesis
    proof (cases coe)
      case True
      with Cons.prems Inl have "a \<in> set (applied (runOps coe (Suc i) ops st'))"
        by (simp add: st'_def)
      from Cons.IH [OF this] same show ?thesis by simp
    next
      case False
      with Cons.prems Inl have "a \<in> set (applied st')"
        by (simp add: st'_def)
      with same show ?thesis by simp
    qed
  next
    case (Inr p)
    obtain w' b where p: "p = (w', b)" by (cases p)
    with Inr have b: "a_type b \<notin> {''moveNode'', ''addTag'', ''removeTag''}"
      using applyOp_index [of i op "workflow st" w' b] by simp
    from Cons.prems Inr p
    have "a \<in> set (applied (runOps coe (Suc i) ops
             (st\<lparr>workflow := w', applied := applied st @ [b], modified := True\<rparr>)))"
      by simp
    from Cons.IH [OF this] b show ?thesis by auto
  qed
qed

text \<open>
  C1 (the code at a failing input). On the graph with nodes A and B and no connection, an
  addConnection operation is recorded in the applied list and the graph is written back,
  but the graph written is the graph fetched, whose connections are still empty. On the
  graph with the connection from A to B, a removeConnection operation likewise writes the
  fetched graph back with the connection still in it.
\<close>

theorem connection_operations_write_unchanged_graph:
  "updatePartialWorkflowHandler
     \<lparr>pa_id = ''wf1'', operations = [operation ''addConnection''], validateOnly = None,
      continueOnError = None\<rparr> (remoteWith abGraph)
   = (Updated ''wf1'' 1 0
        [\<lparr>a_index = 0, a_type = ''addConnection'', a_nodeName = None, a_newName = None\<rparr>] [],
      \<lparr>store = [''wf1'' \<mapsto> abGraph], writes = [(''wf1'', abGraph)]\<rparr>)
   \<and> connections abGraph = []
   \<and> updatePartialWorkflowHandler
     \<lparr>pa_id = ''wf1'', operations = [operation ''removeConnection''], validateOnly = None,
      continueOnError = None\<rparr> (remoteWith abLinked)
   = (Updated ''wf1'' 1 0
        [\<lparr>a_index = 0, a_type = ''removeConnection'', a_nodeName = None, a_newName = None\<rparr>] [],
      \<lparr>store = [''wf1'' \<mapsto> abLinked], writes = [(''wf1'', abLinked)]\<rparr>)
   \<and> connections abLinked
       = [(''A'', [(''main'', [[\<lparr>c_node = ''B'', c_type = ''main'', c_index = 0\<rparr>]])])]"
  by (simp add: updatePartialWorkflowHandler_def getWorkflow_def updateWorkflow_def remoteWith_def
      truthyBool_def abGraph_def abLinked_def applyOp_def appliedRecord_def operation_def)

text \<open>
  C3. With validateOnly set, whatever the operations are, the handler leaves the remote
  store and its log of writes as they were (updateWorkflow is not called), and its
  response is the dry-run body: the counts wouldApply and wouldFail of the two lists of
  records. The only other response is the error of a fetch that failed.
\<close>

theorem validateOnly_never_writes:
  assumes "validateOnly args = Some True"
  shows "snd (updatePartialWorkflowHandler args r) = r \<and>
         (case fst (updatePartialWorkflowHandler args r) of
            Validated a f ops fs \<Rightarrow> a = length ops \<and> f = length fs
          | Updated wid a f ops fs \<Rightarrow> False
          | Failed e \<Rightarrow> store r (pa_id args) = None)"
  using assms
  by (simp add: updatePartialWorkflowHandler_def getWorkflow_def truthyBool_def Let_def
      split: option.splits)

text \<open>
  C3, at a dry run of a mutating, a failing and an unknown operation on the example graph:
  nothing is written, one operation would apply and two would fail.
\<close>

theorem validateOnly_never_writes_witness:
  "validateOnly dryRunArgs = Some True \<and>
   snd (updatePartialWorkflowHandler dryRunArgs startRemote) = startRemote \<and>
   writes (snd (updatePartialWorkflowHandler dryRunArgs startRemote)) = [] \<and>
   map_option (\<lambda>b. (fst b, fst (snd b))) (body (fst (updatePartialWorkflowHandler dryRunArgs startRemote)))
     = Some (1, 2)"
proof -
  have v: "validateOnly dryRunArgs = Some True"
    by (simp add: dryRunArgs_def)
  have s: "snd (updatePartialWorkflowHandler dryRunArgs startRemote) = startRemote"
    using validateOnly_never_writes [OF v, of startRemote] by simp
  have b: "map_option (\<lambda>b. (fst b, fst (snd b)))
             (body (fst (updatePartialWorkflowHandler dryRunArgs startRemote))) = Some (1, 2)"
    by (simp add: updatePartialWorkflowHandler_def getWorkflow_def truthyBool_def dryRunArgs_def
        startRemote_def startGraph_def matchesNode_def lookupNode_def nodeNotFound_def
        plainNode_def applyOp_def operation_def emptyNode_def)
  from v s b show ?thesis by (simp add: startRemote_def)
qed

text \<open>
  C4. On the graph whose only node is named Start, the single operation removeNode with
  nodeName Missing, under the atomic policy, gives an empty applied list and the one
  failed record of index 0 (and type removeNode) with the error "Node not found: Missing";
  the remote store is unchanged and no write is logged.
\<close>

theorem removeNode_missing_example:
  "updatePartialWorkflowHandler
     \<lparr>pa_id = ''wf1'', operations = [(operation ''removeNode'')\<lparr>nodeName := Some ''Missing''\<rparr>],
      validateOnly = None, continueOnError = None\<rparr> startRemote
   = (Updated ''wf1'' 0 1 []
        [\<lparr>f_index = 0, f_type = ''removeNode'', f_error = ''Node not found: Missing''\<rparr>],
      startRemote)
   \<and> writes startRemote = []"
  by (simp add: updatePartialWorkflowHandler_def getWorkflow_def startRemote_def startGraph_def
      truthyBool_def matchesNode_def lookupNode_def nodeNotFound_def templ_def orElse_def
      truthyStr_def applyOp_def operation_def emptyNode_def)

text \<open>
  C5. With continueOnError set, on a graph that the store holds, the response carries the
  applied list and the failed list with their lengths as counts, and the two lengths add
  up to the number of operations. Every operation is attempted on the graph left by the
  operations before it, whether or not one of them failed: if it does not throw there,
  its record is in the applied list and its index is in no failed record; if it throws,
  the failed list holds the record of its index, type and message, and its index is in no
  applied record. The indices in the two lists together are exactly the indices of the
  operations, each once.
\<close>

theorem continueOnError_partition:
  assumes "continueOnError args = Some True" and "store r (pa_id args) = Some w"
  shows "\<exists>ops fs. body (fst (updatePartialWorkflowHandler args r))
                     = Some (length ops, length fs, ops, fs) \<and>
                   length ops + length fs = length (operations args) \<and>
                   mset (map a_index ops) + mset (map f_index fs)
                     = mset [0 ..< length (operations args)] \<and>
                   (\<forall>k < length (operations args).
                      case applyOp k (operations args ! k)
                             (workingCopy 0 (take k (operations args)) w) of
                        Inl msg \<Rightarrow>
                          \<lparr>f_index = k, f_type = op_type (operations args ! k), f_error = msg\<rparr> \<in> set fs \<and>
                          k \<notin> set (map a_index ops)
                      | Inr p \<Rightarrow> snd p \<in> set ops \<and> k \<notin> set (map f_index fs))"
proof -
  define st0 where "st0 = \<lparr>workflow = w, applied = [], failed = [], modified = False\<rparr>"
  define st where "st = runOps True 0 (operations args) st0"
  have len: "length (applied st) + length (failed st) = length (operations args)"
    unfolding st_def st0_def by (simp add: runOps_lengths)
  have idx: "mset (map a_index (applied st)) + mset (map f_index (failed st))
               = mset [0 ..< length (operations args)]"
    unfolding st_def st0_def using runOps_indices [of 0 "operations args"] by simp
  have each: "case applyOp k (operations args ! k) (workingCopy 0 (take k (operations args)) w) of
                Inl msg \<Rightarrow>
                  \<lparr>f_index = k, f_type = op_type (operations args ! k), f_error = msg\<rparr> \<in> set (failed st) \<and>
                  k \<notin> set (map a_index (applied st))
              | Inr p \<Rightarrow> snd p \<in> set (applied st) \<and> k \<notin> set (map f_index (failed st))"
    if k: "k < length (operations args)" for k
  proof (cases "applyOp k (operations args ! k) (workingCopy 0 (take k (operations args)) w)")
    case (Inl msg)
    with runOps_attempts [OF k, of st0]
    have m: "\<lparr>f_index = k, f_type = op_type (operations args ! k), f_error = msg\<rparr> \<in> set (failed st)"
      by (simp add: st_def st0_def)
    then have "k \<in> set (map f_index (failed st))" by force
    from index_once(2) [OF idx this] m Inl show ?thesis by simp
  next
    case (Inr p)
    obtain w' a where p: "p = (w', a)" by (cases p)
    from Inr runOps_attempts [OF k, of st0]
    have m: "snd p \<in> set (applied st)"
      by (simp add: st_def st0_def)
    from Inr p have "a_index a = k" using applyOp_index by blast
    with m p have "k \<in> set (map a_index (applied st))" by force
    from index_once(1) [OF idx this] m Inr show ?thesis by simp
  qed
  have "body (fst (updatePartialWorkflowHandler args r))
          = Some (length (applied st), length (failed st), applied st, failed st)"
    using assms
    by (simp add: updatePartialWorkflowHandler_def getWorkflow_def updateWorkflow_def
        truthyBool_def Let_def st_def st0_def)
  with len idx each show ?thesis by blast
qed

text \<open>
  C5, at a batch of three operations on the example graph: removeNode of a missing node
  fails, disableNode of Start is still attempted and applied, and moveNode fails.
\<close>

theorem continueOnError_partition_witness:
  "continueOnError bestEffortArgs = Some True \<and>
   store startRemote (pa_id bestEffortArgs) = Some startGraph \<and>
   body (fst (updatePartialWorkflowHandler bestEffortArgs startRemote))
     = Some (1, 2,
         [\<lparr>a_index = 1, a_type = ''disableNode'', a_nodeName = Some ''Start'', a_newName = None\<rparr>],
         [\<lparr>f_index = 0, f_type = ''removeNode'', f_error = ''Node not found: Missing''\<rparr>,
          \<lparr>f_index = 2, f_type = ''moveNode'', f_error = ''Unknown operation type: moveNode''\<rparr>])"
proof -
  have c: "continueOnError bestEffortArgs = Some True"
    by (simp add: bestEffortArgs_def)
  have s: "store startRemote (pa_id bestEffortArgs) = Some startGraph"
    by (simp add: bestEffortArgs_def startRemote_def)
  have n: "length (operations bestEffortArgs) = 3"
    by (simp add: bestEffortArgs_def)
  from continueOnError_partition [OF c s] obtain ops fs where
    b: "body (fst (updatePartialWorkflowHandler bestEffortArgs startRemote))
          = Some (length ops, length fs, ops, fs)"
    and l: "length ops + length fs = length (operations bestEffortArgs)"
    and e: "\<forall>k < length (operations bestEffortArgs).
              case applyOp k (operations bestEffortArgs ! k)
                     (workingCopy 0 (take k (operations bestEffortArgs)) startGraph) of
                Inl msg \<Rightarrow>
                  \<lparr>f_index = k, f_type = op_type (operations bestEffortArgs ! k), f_error = msg\<rparr> \<in> set fs \<and>
                  k \<notin> set (map a_index ops)
              | Inr p \<Rightarrow> snd p \<in> set ops \<and> k \<notin> set (map f_index fs)"
    by blast
  have ev: "body (fst (updatePartialWorkflowHandler bestEffortArgs startRemote))
     = Some (1, 2,
         [\<lparr>a_index = 1, a_type = ''disableNode'', a_nodeName = Some ''Start'', a_newName = None\<rparr>],
         [\<lparr>f_index = 0, f_type = ''removeNode'', f_error = ''Node not found: Missing''\<rparr>,
          \<lparr>f_index = 2, f_type = ''moveNode'', f_error = ''Unknown operation type: moveNode''\<rparr>])"
    by (simp add: updatePartialWorkflowHandler_def getWorkflow_def updateWorkflow_def truthyBool_def
        bestEffortArgs_def startRemote_def startGraph_def matchesNode_def lookupNode_def
        nodeNotFound_def templ_def orElse_def truthyStr_def applyOp_def appliedRecord_def
        operation_def emptyNode_def)
  from c s b l n ev show ?thesis by simp
qed


text \<open>
  C10. An operation of type moveNode, addTag or removeTag reaches the default branch: it
  throws "Unknown operation type: " followed by the type. When the loop reaches it, the
  loop appends the failure record of its index and leaves the working copy, the applied
  list and the modified flag as they were, then goes on or stops by the policy. In no
  batch does a record of such a type enter the applied list.
\<close>

theorem unknown_operation_types_fail:
  assumes "op_type op \<in> {''moveNode'', ''addTag'', ''removeTag''}"
  shows "applyOp i op w = Inl (''Unknown operation type: '' @ op_type op) \<and>
         runOps coe i (op # ops) st
           = (if coe
              then runOps coe (Suc i) ops
                     (st\<lparr>failed := failed st @
                          [\<lparr>f_index = i, f_type = op_type op,
                            f_error = ''Unknown operation type: '' @ op_type op\<rparr>]\<rparr>)
              else st\<lparr>failed := failed st @
                          [\<lparr>f_index = i, f_type = op_type op,
                            f_error = ''Unknown operation type: '' @ op_type op\<rparr>]\<rparr>) \<and>
         (\<forall>a \<in> set (applied (runOps coe 0 batch
                     \<lparr>workflow = w, applied = [], failed = [], modified = False\<rparr>)).
            a_type a \<noteq> op_type op)"
proof -
  have u: "applyOp i op w = Inl (''Unknown operation type: '' @ op_type op)" for i w
    using assms by (auto simp: applyOp_def)
  have n: "a_type a \<noteq> op_type op"
    if "a \<in> set (applied (runOps coe 0 batch
                     \<lparr>workflow = w, applied = [], failed = [], modified = False\<rparr>))" for a
    using runOps_applied_types [OF that] assms by auto
  from u n show ?thesis by (simp add: Let_def)
qed

text \<open>
  C10, at the single operation moveNode on the example graph under the atomic policy: one
  failure record, nothing applied, nothing written.
\<close>

theorem unknown_operation_types_fail_witness:
  "op_type (operation ''moveNode'') \<in> {''moveNode'', ''addTag'', ''removeTag''} \<and>
   updatePartialWorkflowHandler
     \<lparr>pa_id = ''wf1'', operations = [operation ''moveNode''], validateOnly = None,
      continueOnError = None\<rparr> startRemote
   = (Updated ''wf1'' 0 1 []
        [\<lparr>f_index = 0, f_type = ''moveNode'', f_error = ''Unknown operation type: moveNode''\<rparr>],
      startRemote)"
proof -
  have t: "op_type (operation ''moveNode'') \<in> {''moveNode'', ''addTag'', ''removeTag''}"
    by (simp add: operation_def)
  have o: "op_type (operation ''moveNode'') = ''moveNode''"
    by (simp add: operation_def)
  have g: "getWorkflow startRemote ''wf1'' = Inr startGraph"
    by (simp add: getWorkflow_def startRemote_def)
  have r: "runOps False 0 [operation ''moveNode'']
             \<lparr>workflow = startGraph, applied = [], failed = [], modified = False\<rparr>
           = (if False
              then runOps False (Suc 0) []
                     (\<lparr>workflow = startGraph, applied = [], failed = [], modified = False\<rparr>
                      \<lparr>failed := failed \<lparr>workflow = startGraph, applied = [], failed = [], modified = False\<rparr> @
                          [\<lparr>f_index = 0, f_type = op_type (operation ''moveNode''),
                            f_error = ''Unknown operation type: '' @ op_type (operation ''moveNode'')\<rparr>]\<rparr>)
              else \<lparr>workflow = startGraph, applied = [], failed = [], modified = False\<rparr>
                      \<lparr>failed := failed \<lparr>workflow = startGraph, applied = [], failed = [], modified = False\<rparr> @
                          [\<lparr>f_index = 0, f_type = op_type (operation ''moveNode''),
                            f_error = ''Unknown operation type: '' @ op_type (operation ''moveNode'')\<rparr>]\<rparr>)"
    using unknown_operation_types_fail [OF t, of 0 startGraph False "[]"
      "\<lparr>workflow = startGraph, applied = [], failed = [], modified = False\<rparr>"]
    by blast
  from t g o show ?thesis
    by (simp add: updatePartialWorkflowHandler_def truthyBool_def r del: runOps.simps)
qed

section \<open>Properties of the Validation Engine\<close>

text \<open>
  C6 (the code at a failing input). For a graph whose one node has a type that contains
  the schedule marker, the summary of validateWorkflowHandler counts no trigger node,
  while the details mode of getWorkflowHandler counts one for the same graph.
\<close>

theorem schedule_node_not_counted:
  "map_sum id (\<lambda>rep. triggerNodes (summary rep))
     (validateWorkflowHandler \<lparr>va_id = ''wf1'', options = None\<rparr> (remoteWith scheduleGraph)) = Inr 0
   \<and> detailsTriggerNodes scheduleGraph = Inr 1"
  by (simp add: validateWorkflowHandler_def getWorkflow_def scheduleGraph_def plainNode_def
      enabledCheck_def summaryTriggerNodes_def detailsTriggerNodes_def Let_def remoteWith_def)


section \<open>Properties of the Autofix Engine\<close>

text \<open>The loop over the fixes changes no property of a node other than typeVersion.\<close>

lemma applyFixLoop_frame:
  "applyFixLoop fs (ns, m) = (ns', m') \<Longrightarrow>
     map (\<lambda>n. n\<lparr>typeVersion := None\<rparr>) ns' = map (\<lambda>n. n\<lparr>typeVersion := None\<rparr>) ns"
proof (induction fs arbitrary: ns m)
  case Nil
  then show ?case by simp
next
  case (Cons f fs)
  show ?case
  proof (cases "findIndex (\<lambda>n. n_name n = fx_node f) ns")
    case None
    with Cons show ?thesis by simp
  next
    case (Some k)
    show ?thesis
    proof (cases "fx_type f = ''typeversion-missing''")
      case False
      with Cons Some show ?thesis by simp
    next
      case True
      let ?ns1 = "ns[k := (ns ! k)\<lparr>typeVersion := Some 1\<rparr>]"
      from Cons.prems Some True have "applyFixLoop fs (?ns1, True) = (ns', m')" by simp
      from Cons.IH [OF this]
      have "map (\<lambda>n. n\<lparr>typeVersion := None\<rparr>) ns' = map (\<lambda>n. n\<lparr>typeVersion := None\<rparr>) ?ns1" .
      also have "\<dots> = map (\<lambda>n. n\<lparr>typeVersion := None\<rparr>) ns"
        using findIndex_bound [OF Some] by (simp add: map_update list_update_same_conv)
      finally show ?thesis .
    qed
  qed
qed

lemma expressionFixes_type:
  "expressionFixes ns = Inr fs \<Longrightarrow> f \<in> set fs \<Longrightarrow> fx_type f = ''expression-format''"
  by (induction ns arbitrary: fs)
     (auto simp: expressionFix_def split: option.splits sum.splits if_splits)

lemma webhookFixes_type:
  "webhookFixes ns = Inr fs \<Longrightarrow> f \<in> set fs \<Longrightarrow> fx_type f = ''webhook-missing-path''"
  by (induction ns arbitrary: fs)
     (auto simp: webhookFix_def split: option.splits sum.splits if_splits)

lemma typeVersionFixes_type:
  "f \<in> set (typeVersionFixes ns) \<Longrightarrow> fx_type f = ''typeversion-missing''"
  by (auto simp: typeVersionFixes_def typeVersionFix_def)

text \<open>When every finding is of type typeversion-missing, the other two detectors found nothing.\<close>

lemma only_typeVersion:
  assumes "detectFixes w = Inr fs" and "\<forall>f \<in> set fs. fx_type f = ''typeversion-missing''"
  shows "expressionFixes (nodes w) = Inr [] \<and> webhookFixes (nodes w) = Inr [] \<and>
         fs = typeVersionFixes (nodes w)"
proof -
  from assms(1) obtain f1 f3 where d: "expressionFixes (nodes w) = Inr f1"
    "webhookFixes (nodes w) = Inr f3" "fs = f1 @ typeVersionFixes (nodes w) @ f3"
    by (auto simp: detectFixes_def split: sum.splits)
  have "f1 = []"
  proof (cases f1)
    case (Cons f rest)
    with d assms(2) expressionFixes_type [OF d(1), of f] show ?thesis by auto
  qed simp
  moreover have "f3 = []"
  proof (cases f3)
    case (Cons f rest)
    with d assms(2) webhookFixes_type [OF d(2), of f] show ?thesis by auto
  qed simp
  ultimately show ?thesis using d by simp
qed

lemma expressionFixes_setTypeVersion:
  "expressionFixes (map setTypeVersion ns) = expressionFixes ns"
  by (induction ns) (auto simp: setTypeVersion_def expressionFix_def split: option.splits sum.splits)

lemma webhookFixes_setTypeVersion:
  "webhookFixes (map setTypeVersion ns) = webhookFixes ns"
  by (induction ns) (auto simp: setTypeVersion_def missingPath_def split: option.splits sum.splits)

lemma typeVersionFixes_setTypeVersion:
  "typeVersionFixes (map setTypeVersion ns) = []"
  by (induction ns) (auto simp: typeVersionFixes_def setTypeVersion_def truthyNum_def)

lemma detectFixes_fixed:
  assumes "expressionFixes (nodes w) = Inr []" and "webhookFixes (nodes w) = Inr []"
  shows "detectFixes (w\<lparr>nodes := map setTypeVersion (nodes w)\<rparr>) = Inr []"
  using assms
  by (simp add: detectFixes_def expressionFixes_setTypeVersion webhookFixes_setTypeVersion
      typeVersionFixes_setTypeVersion)

text \<open>
  The loop on typeversion-missing fixes that name nodes of an array with distinct names:
  each fix finds its own node, so exactly the named nodes get typeVersion 1.
\<close>

lemma applyFixLoop_distinct:
  assumes "distinct (map n_name ns)"
    and "fx_node ` set fs \<subseteq> set (map n_name ns)"
    and "\<forall>f \<in> set fs. fx_type f = ''typeversion-missing''"
  shows "applyFixLoop fs (ns, m)
         = (map (\<lambda>n. if n_name n \<in> fx_node ` set fs then n\<lparr>typeVersion := Some 1\<rparr> else n) ns,
            m \<or> fs \<noteq> [])"
  using assms
proof (induction fs arbitrary: ns m)
  case Nil
  then show ?case by simp
next
  case (Cons f fs)
  from Cons.prems(2) obtain k where k: "k < length ns" "n_name (ns ! k) = fx_node f"
    by (auto simp: in_set_conv_nth)
  have uniq: "j = k" if "j < length ns" "n_name (ns ! j) = fx_node f" for j
  proof -
    from that k have "map n_name ns ! j = map n_name ns ! k" by simp
    moreover from that k have "j < length (map n_name ns)" "k < length (map n_name ns)" by simp_all
    ultimately show ?thesis using nth_eq_iff_index_eq [OF Cons.prems(1)] by blast
  qed
  have idx: "findIndex (\<lambda>n. n_name n = fx_node f) ns = Some k"
  proof (rule findIndex_first)
    show "k < length ns" by (rule k(1))
    show "n_name (ns ! k) = fx_node f" by (rule k(2))
    show "\<forall>j<k. \<not> n_name (ns ! j) = fx_node f"
    proof (intro allI impI notI)
      fix j
      assume less: "j < k" and eq: "n_name (ns ! j) = fx_node f"
      from less k(1) have "j < length ns" by simp
      from uniq [OF this eq] less show False by simp
    qed
  qed
  let ?ns1 = "ns[k := (ns ! k)\<lparr>typeVersion := Some 1\<rparr>]"
  have names: "map n_name ?ns1 = map n_name ns"
    using k by (simp add: map_update list_update_same_conv)
  have ih: "applyFixLoop fs (?ns1, True)
            = (map (\<lambda>n. if n_name n \<in> fx_node ` set fs then n\<lparr>typeVersion := Some 1\<rparr> else n) ?ns1,
               True \<or> fs \<noteq> [])"
    using Cons.prems by (intro Cons.IH) (auto simp: names)
  have eq: "map (\<lambda>n. if n_name n \<in> fx_node ` set fs then n\<lparr>typeVersion := Some 1\<rparr> else n) ?ns1
            = map (\<lambda>n. if n_name n \<in> fx_node ` set (f # fs) then n\<lparr>typeVersion := Some 1\<rparr> else n) ns"
  proof (rule nth_equalityI)
    show "length (map (\<lambda>n. if n_name n \<in> fx_node ` set fs then n\<lparr>typeVersion := Some 1\<rparr> else n) ?ns1)
          = length (map (\<lambda>n. if n_name n \<in> fx_node ` set (f # fs) then n\<lparr>typeVersion := Some 1\<rparr> else n) ns)"
      by simp
  next
    fix j
    assume "j < length (map (\<lambda>n. if n_name n \<in> fx_node ` set fs then n\<lparr>typeVersion := Some 1\<rparr> else n) ?ns1)"
    then have j: "j < length ns" by simp
    show "map (\<lambda>n. if n_name n \<in> fx_node ` set fs then n\<lparr>typeVersion := Some 1\<rparr> else n) ?ns1 ! j
          = map (\<lambda>n. if n_name n \<in> fx_node ` set (f # fs) then n\<lparr>typeVersion := Some 1\<rparr> else n) ns ! j"
    proof (cases "j = k")
      case True
      with j k show ?thesis by simp
    next
      case False
      with uniq [OF j] have "n_name (ns ! j) \<noteq> fx_node f" by blast
      with j False show ?thesis by simp
    qed
  qed
  from Cons.prems(3) have "fx_type f = ''typeversion-missing''" by simp
  with idx ih eq show ?case by simp
qed

lemma applyFixLoop_typeVersionFixes:
  assumes "distinct (map n_name ns)"
  shows "applyFixLoop (typeVersionFixes ns) (ns, False)
         = (map setTypeVersion ns, typeVersionFixes ns \<noteq> [])"
proof -
  have sub: "fx_node ` set (typeVersionFixes ns) \<subseteq> set (map n_name ns)"
    by (auto simp: typeVersionFixes_def typeVersionFix_def)
  have ty: "\<forall>f \<in> set (typeVersionFixes ns). fx_type f = ''typeversion-missing''"
    using typeVersionFixes_type by blast
  have inj: "inj_on n_name (set ns)"
    using assms by (simp add: distinct_map)
  have "(if n_name n \<in> fx_node ` set (typeVersionFixes ns) then n\<lparr>typeVersion := Some 1\<rparr> else n)
        = setTypeVersion n" if "n \<in> set ns" for n
  proof (cases "truthyNum (typeVersion n)")
    case True
    have "n_name n \<notin> fx_node ` set (typeVersionFixes ns)"
    proof
      assume "n_name n \<in> fx_node ` set (typeVersionFixes ns)"
      then obtain n' where n': "n' \<in> set ns" "\<not> truthyNum (typeVersion n')" "n_name n' = n_name n"
        by (auto simp: typeVersionFixes_def typeVersionFix_def)
      with inj that have "n' = n" by (auto dest: inj_onD)
      with n' True show False by simp
    qed
    with True show ?thesis by (simp add: setTypeVersion_def)
  next
    case False
    with that have "n_name n \<in> fx_node ` set (typeVersionFixes ns)"
      by (force simp: typeVersionFixes_def typeVersionFix_def)
    with False show ?thesis by (simp add: setTypeVersion_def)
  qed
  then have "map (\<lambda>n. if n_name n \<in> fx_node ` set (typeVersionFixes ns)
                       then n\<lparr>typeVersion := Some 1\<rparr> else n) ns
             = map setTypeVersion ns"
    by (intro map_cong) auto
  with applyFixLoop_distinct [OF assms sub ty, of False] show ?thesis by simp
qed

text \<open>
  C7 (as stated, refuted). The graph with two nodes of the same name, both without
  typeVersion, has typeversion-missing findings only. A run with applyFixes finds and
  counts two fixes and writes the graph back, but both fixes land on the first node: a
  second run finds the second node still without typeVersion and returns fixesFound 1 and
  fixesApplied 1.
\<close>

theorem autofix_duplicate_names_not_idempotent:
  "detectFixes dupGraph
     = Inr [typeVersionFix (nodes dupGraph ! 0), typeVersionFix (nodes dupGraph ! 1)] \<and>
   map_sum id (\<lambda>rep. (fixesFound rep, fixesApplied rep))
     (fst (autofixWorkflowHandler applyArgs (remoteWith dupGraph))) = Inr (2, 2) \<and>
   map_sum id (\<lambda>rep. (fixesFound rep, fixesApplied rep, map fx_type (ar_fixes rep)))
     (fst (autofixWorkflowHandler applyArgs
             (snd (autofixWorkflowHandler applyArgs (remoteWith dupGraph)))))
     = Inr (1, 1, [''typeversion-missing''])"
  by (simp add: autofixWorkflowHandler_def getWorkflow_def updateWorkflow_def truthyBool_def
      detectFixes_def typeVersionFixes_def typeVersionFix_def truthyNum_def plainNode_def
      applyArgs_def remoteWith_def dupGraph_def)

text \<open>
  C7 (amended). For a graph with pairwise distinct node names whose findings are one or
  more, all of type typeversion-missing: a run with applyFixes counts them all as applied
  and writes back, once, the graph in which every node with a falsy typeVersion has
  typeVersion 1 and nothing else differs; any further run on the stored graph finds
  nothing, returns fixesFound 0 and fixesApplied 0, and writes nothing.
\<close>

theorem autofix_typeVersion_idempotent:
  assumes "store r (af_id args) = Some w"
    and "distinct (map n_name (nodes w))"
    and "detectFixes w = Inr fs" and "fs \<noteq> []"
    and "\<forall>f \<in> set fs. fx_type f = ''typeversion-missing''"
    and "applyFixes args = Some True"
    and "af_id again = af_id args"
  shows "\<exists>rep r1 rep2.
           autofixWorkflowHandler args r = (Inr rep, r1) \<and>
           fixesFound rep = length fs \<and> fixesApplied rep = length fs \<and>
           store r1 (af_id args) = Some (w\<lparr>nodes := map setTypeVersion (nodes w)\<rparr>) \<and>
           writes r1 = writes r @ [(af_id args, w\<lparr>nodes := map setTypeVersion (nodes w)\<rparr>)] \<and>
           autofixWorkflowHandler again r1 = (Inr rep2, r1) \<and>
           ar_fixes rep2 = [] \<and> fixesFound rep2 = 0 \<and> fixesApplied rep2 = 0"
proof -
  let ?w1 = "w\<lparr>nodes := map setTypeVersion (nodes w)\<rparr>"
  let ?r1 = "r\<lparr>store := (store r)(af_id args \<mapsto> ?w1), writes := writes r @ [(af_id args, ?w1)]\<rparr>"
  from only_typeVersion [OF assms(3) assms(5)]
  have d: "expressionFixes (nodes w) = Inr []" "webhookFixes (nodes w) = Inr []"
    "fs = typeVersionFixes (nodes w)" by simp_all
  have loop: "applyFixLoop fs (nodes w, False) = (map setTypeVersion (nodes w), True)"
    using applyFixLoop_typeVersionFixes [OF assms(2)] d(3) assms(4) by simp
  have first: "autofixWorkflowHandler args r
               = (Inr \<lparr>ar_workflowId = af_id args, ar_workflowName = w_name w,
                       fixesFound = length fs, fixesApplied = length fs, ar_fixes = fs\<rparr>, ?r1)"
    using assms(1) assms(3) assms(6) loop
    by (simp add: autofixWorkflowHandler_def getWorkflow_def updateWorkflow_def truthyBool_def)
  have fetch: "getWorkflow ?r1 (af_id again) = Inr ?w1"
    using assms(7) by (simp add: getWorkflow_def)
  have second: "autofixWorkflowHandler again ?r1
                = (Inr \<lparr>ar_workflowId = af_id again, ar_workflowName = w_name w,
                        fixesFound = 0, fixesApplied = 0, ar_fixes = []\<rparr>, ?r1)"
    using fetch detectFixes_fixed [OF d(1) d(2)]
    by (simp add: autofixWorkflowHandler_def)
  from first second show ?thesis by simp
qed

text \<open>
  C7 (amended), at the graph of three nodes of different names of which the first has no
  typeVersion and the third has typeVersion 0: the first run applies two fixes, the
  second run applies none.
\<close>

theorem autofix_typeVersion_idempotent_witness:
  "store (remoteWith unversionedGraph) (af_id applyArgs) = Some unversionedGraph \<and>
   distinct (map n_name (nodes unversionedGraph)) \<and>
   detectFixes unversionedGraph
     = Inr [typeVersionFix (nodes unversionedGraph ! 0), typeVersionFix (nodes unversionedGraph ! 2)] \<and>
   (\<exists>rep r1 rep2.
      autofixWorkflowHandler applyArgs (remoteWith unversionedGraph) = (Inr rep, r1) \<and>
      fixesApplied rep = 2 \<and>
      autofixWorkflowHandler applyArgs r1 = (Inr rep2, r1) \<and> fixesApplied rep2 = 0)"
proof -
  let ?fs = "[typeVersionFix (nodes unversionedGraph ! 0), typeVersionFix (nodes unversionedGraph ! 2)]"
  have a: "store (remoteWith unversionedGraph) (af_id applyArgs) = Some unversionedGraph"
    by (simp add: remoteWith_def applyArgs_def)
  have b: "distinct (map n_name (nodes unversionedGraph))"
    by (simp add: unversionedGraph_def plainNode_def)
  have c: "detectFixes unversionedGraph = Inr ?fs"
    by (simp add: detectFixes_def typeVersionFixes_def truthyNum_def plainNode_def
        unversionedGraph_def missingPath_def)
  have d: "?fs \<noteq> []" by simp
  have e: "\<forall>f \<in> set ?fs. fx_type f = ''typeversion-missing''"
    by (simp add: typeVersionFix_def)
  have f: "applyFixes applyArgs = Some True"
    by (simp add: applyArgs_def)
  from autofix_typeVersion_idempotent [OF a b c d e f refl]
  obtain rep r1 rep2 where
    "autofixWorkflowHandler applyArgs (remoteWith unversionedGraph) = (Inr rep, r1)"
    "fixesApplied rep = length ?fs"
    "autofixWorkflowHandler applyArgs r1 = (Inr rep2, r1)" "fixesApplied rep2 = 0"
    by blast
  with a b c show ?thesis by simp
qed

text \<open>The loop over the fixes in closed form.\<close>

lemma findIndex_map: "findIndex (\<lambda>n. P (f n)) xs = findIndex P (map f xs)"
  by (induction xs) auto

lemma findIndex_None: "(findIndex P xs = None) = (\<forall>x \<in> set xs. \<not> P x)"
  by (induction xs) auto

lemma findIndex_names:
  "map n_name ms = map n_name ns \<Longrightarrow>
     findIndex (\<lambda>n. n_name n = x) ms = findIndex (\<lambda>n. n_name n = x) ns"
proof -
  assume same: "map n_name ms = map n_name ns"
  have "findIndex (\<lambda>n. n_name n = x) ms = findIndex (\<lambda>y. y = x) (map n_name ms)"
    by (rule findIndex_map [of "\<lambda>y. y = x" n_name ms])
  also have "\<dots> = findIndex (\<lambda>y. y = x) (map n_name ns)"
    by (simp only: same)
  also have "\<dots> = findIndex (\<lambda>n. n_name n = x) ns"
    by (rule findIndex_map [of "\<lambda>y. y = x" n_name ns, symmetric])
  finally show ?thesis .
qed

lemma targeted_names:
  assumes "map n_name ms = map n_name ns"
  shows "targeted fs ms j = targeted fs ns j"
  by (simp add: targeted_def findIndex_names [OF assms])

lemma applyFixLoop_repaired:
  "applyFixLoop fs (ns, m)
     = (repaired fs ns,
        m \<or> list_ex (\<lambda>f. fx_type f = ''typeversion-missing'' \<and>
                          findIndex (\<lambda>n. n_name n = fx_node f) ns \<noteq> None) fs)"
proof (induction fs arbitrary: ns m)
  case Nil
  have "map (\<lambda>j. ns ! j) [0 ..< length ns] = ns" by (rule map_nth)
  then show ?case by (simp add: repaired_def targeted_def)
next
  case (Cons f fs)
  show ?case
  proof (cases "fx_type f = ''typeversion-missing''")
    case False
    then have "targeted (f # fs) ns = targeted fs ns"
      by (simp add: targeted_def fun_eq_iff)
    then have "repaired (f # fs) ns = repaired fs ns"
      by (simp add: repaired_def)
    with False Cons.IH [of ns m] show ?thesis
      by (simp split: option.splits)
  next
    case True
    show ?thesis
    proof (cases "findIndex (\<lambda>n. n_name n = fx_node f) ns")
      case None
      with True have "targeted (f # fs) ns = targeted fs ns"
        by (simp add: targeted_def fun_eq_iff)
      then have "repaired (f # fs) ns = repaired fs ns"
        by (simp add: repaired_def)
      with None True Cons.IH [of ns m] show ?thesis by simp
    next
      case (Some k)
      then have k: "k < length ns" by (rule findIndex_bound)
      let ?ns1 = "ns[k := (ns ! k)\<lparr>typeVersion := Some 1\<rparr>]"
      have names: "map n_name ?ns1 = map n_name ns"
        using k by (simp add: map_update list_update_same_conv)
      have tg: "targeted (f # fs) ns j = (j = k \<or> targeted fs ns j)" for j
        using True Some by (auto simp: targeted_def)
      have rep: "repaired fs ?ns1 = repaired (f # fs) ns"
        unfolding repaired_def
      proof (rule nth_equalityI)
        show "length (map (\<lambda>j. if targeted fs ?ns1 j then (?ns1 ! j)\<lparr>typeVersion := Some 1\<rparr> else ?ns1 ! j)
                        [0 ..< length ?ns1])
              = length (map (\<lambda>j. if targeted (f # fs) ns j then (ns ! j)\<lparr>typeVersion := Some 1\<rparr> else ns ! j)
                        [0 ..< length ns])"
          by simp
      next
        fix j
        assume "j < length (map (\<lambda>j. if targeted fs ?ns1 j then (?ns1 ! j)\<lparr>typeVersion := Some 1\<rparr> else ?ns1 ! j)
                        [0 ..< length ?ns1])"
        then have j: "j < length ns" by simp
        show "map (\<lambda>j. if targeted fs ?ns1 j then (?ns1 ! j)\<lparr>typeVersion := Some 1\<rparr> else ?ns1 ! j)
                        [0 ..< length ?ns1] ! j
              = map (\<lambda>j. if targeted (f # fs) ns j then (ns ! j)\<lparr>typeVersion := Some 1\<rparr> else ns ! j)
                        [0 ..< length ns] ! j"
          using j k by (cases "j = k") (simp_all add: tg targeted_names [OF names])
      qed
      have ex: "list_ex (\<lambda>g. fx_type g = ''typeversion-missing'' \<and>
                          findIndex (\<lambda>n. n_name n = fx_node g) ?ns1 \<noteq> None) fs
                = list_ex (\<lambda>g. fx_type g = ''typeversion-missing'' \<and>
                          findIndex (\<lambda>n. n_name n = fx_node g) ns \<noteq> None) fs"
        by (simp add: findIndex_names [OF names])
      from True Some Cons.IH [of ?ns1 True] rep ex show ?thesis by simp
    qed
  qed
qed

lemma detected_typeVersion_fix_found:
  assumes "detectFixes w = Inr fs" and "f \<in> set fs" and "fx_type f = ''typeversion-missing''"
  shows "findIndex (\<lambda>n. n_name n = fx_node f) (nodes w) \<noteq> None"
proof -
  from assms(1) obtain f1 f3 where d: "expressionFixes (nodes w) = Inr f1"
    "webhookFixes (nodes w) = Inr f3" "fs = f1 @ typeVersionFixes (nodes w) @ f3"
    by (auto simp: detectFixes_def split: sum.splits)
  from assms(3) expressionFixes_type [OF d(1), of f] have "f \<notin> set f1" by auto
  moreover from assms(3) webhookFixes_type [OF d(2), of f] have "f \<notin> set f3" by auto
  ultimately have "f \<in> set (typeVersionFixes (nodes w))"
    using assms(2) d(3) by auto
  then have "fx_node f \<in> set (map n_name (nodes w))"
    by (auto simp: typeVersionFixes_def typeVersionFix_def)
  then show ?thesis by (auto simp: findIndex_None)
qed

text \<open>
  C8. When applyFixes is set and the handler returns its report, fixesApplied equals
  fixesFound, the number of all findings of all three types. Only the findings of type
  typeversion-missing change the graph: each sets typeVersion to 1 on the first node of
  the name it carries, and every other node, and every other property, is as fetched.
  The graph is written back, once, exactly when some finding is of type
  typeversion-missing; otherwise the remote state is untouched.
\<close>

theorem autofix_applied_count_is_found_count:
  assumes "applyFixes args = Some True"
    and "autofixWorkflowHandler args r = (Inr rep, r')"
  shows "fixesApplied rep = fixesFound rep \<and> fixesFound rep = length (ar_fixes rep) \<and>
         (\<exists>w. store r (af_id args) = Some w \<and> detectFixes w = Inr (ar_fixes rep) \<and>
              map (\<lambda>n. n\<lparr>typeVersion := None\<rparr>) (repaired (ar_fixes rep) (nodes w))
                = map (\<lambda>n. n\<lparr>typeVersion := None\<rparr>) (nodes w) \<and>
              r' = (if list_ex (\<lambda>f. fx_type f = ''typeversion-missing'') (ar_fixes rep)
                    then r\<lparr>store := (store r)(af_id args \<mapsto> w\<lparr>nodes := repaired (ar_fixes rep) (nodes w)\<rparr>),
                           writes := writes r @
                             [(af_id args, w\<lparr>nodes := repaired (ar_fixes rep) (nodes w)\<rparr>)]\<rparr>
                    else r))"
proof -
  from assms(2) obtain w where w: "store r (af_id args) = Some w"
    by (auto simp: autofixWorkflowHandler_def getWorkflow_def split: option.splits)
  from assms(2) w obtain fs where fs: "detectFixes w = Inr fs"
    by (auto simp: autofixWorkflowHandler_def getWorkflow_def split: sum.splits)
  have flag: "list_ex (\<lambda>f. fx_type f = ''typeversion-missing'' \<and>
                          findIndex (\<lambda>n. n_name n = fx_node f) (nodes w) \<noteq> None) fs
              = list_ex (\<lambda>f. fx_type f = ''typeversion-missing'') fs"
    using detected_typeVersion_fix_found [OF fs] by (auto simp: list_ex_iff)
  have loop: "applyFixLoop fs (nodes w, False)
              = (repaired fs (nodes w), list_ex (\<lambda>f. fx_type f = ''typeversion-missing'') fs)"
    using applyFixLoop_repaired [of fs "nodes w" False] flag by simp
  from assms w fs loop have rep: "ar_fixes rep = fs" "fixesFound rep = length fs"
    "fixesApplied rep = length fs"
    by (auto simp: autofixWorkflowHandler_def getWorkflow_def truthyBool_def Let_def
        split: if_splits sum.splits)
  from assms w fs loop
  have r': "r' = (if list_ex (\<lambda>f. fx_type f = ''typeversion-missing'') fs
                  then r\<lparr>store := (store r)(af_id args \<mapsto> w\<lparr>nodes := repaired fs (nodes w)\<rparr>),
                         writes := writes r @ [(af_id args, w\<lparr>nodes := repaired fs (nodes w)\<rparr>)]\<rparr>
                  else r)"
    by (auto simp: autofixWorkflowHandler_def getWorkflow_def updateWorkflow_def
        truthyBool_def Let_def split: if_splits)
  from applyFixLoop_frame [OF loop] w fs rep r' show ?thesis by auto
qed


text \<open>
  C8, at two graphs. With a webhook node without a path and a node without typeVersion
  that holds a bare expression, three fixes are found and three are counted as applied,
  and the one graph written has typeVersion 1 on both nodes. With the webhook node alone,
  one fix is found and counted as applied, and nothing is written.
\<close>

theorem autofix_applied_count_is_found_count_witness:
  "applyFixes applyArgs = Some True \<and>
   (\<exists>rep r'. autofixWorkflowHandler applyArgs (remoteWith mixedGraph) = (Inr rep, r') \<and>
              fixesFound rep = 3 \<and> fixesApplied rep = 3 \<and>
              map fx_type (ar_fixes rep)
                = [''expression-format'', ''typeversion-missing'', ''webhook-missing-path''] \<and>
              map (\<lambda>p. map typeVersion (nodes (snd p))) (writes r') = [[Some 1, Some 1]]) \<and>
   (\<exists>rep r'. autofixWorkflowHandler applyArgs (remoteWith hookGraph) = (Inr rep, r') \<and>
              fixesFound rep = 1 \<and> fixesApplied rep = 1 \<and> r' = remoteWith hookGraph)"
proof -
  have f: "applyFixes applyArgs = Some True"
    by (simp add: applyArgs_def)
  have "\<exists>rep r'. autofixWorkflowHandler applyArgs (remoteWith mixedGraph) = (Inr rep, r') \<and>
                  fixesFound rep = 3 \<and>
                  map fx_type (ar_fixes rep)
                    = [''expression-format'', ''typeversion-missing'', ''webhook-missing-path''] \<and>
                  map (\<lambda>p. map typeVersion (nodes (snd p))) (writes r') = [[Some 1, Some 1]]"
    by (simp add: autofixWorkflowHandler_def getWorkflow_def updateWorkflow_def truthyBool_def
        detectFixes_def typeVersionFixes_def typeVersionFix_def truthyNum_def plainNode_def
        missingPath_def truthyStr_def applyArgs_def webhookFix_def expressionFix_def isSpace_def
        remoteWith_def mixedGraph_def)
  then obtain rep r' where
    m: "autofixWorkflowHandler applyArgs (remoteWith mixedGraph) = (Inr rep, r')"
      "fixesFound rep = 3"
      "map fx_type (ar_fixes rep)
         = [''expression-format'', ''typeversion-missing'', ''webhook-missing-path'']"
      "map (\<lambda>p. map typeVersion (nodes (snd p))) (writes r') = [[Some 1, Some 1]]"
    by (elim exE conjE)
  have "\<exists>rep r'. autofixWorkflowHandler applyArgs (remoteWith hookGraph) = (Inr rep, r') \<and>
                  fixesFound rep = 1 \<and> r' = remoteWith hookGraph"
    by (simp add: autofixWorkflowHandler_def getWorkflow_def updateWorkflow_def truthyBool_def
        detectFixes_def typeVersionFixes_def typeVersionFix_def truthyNum_def plainNode_def
        missingPath_def truthyStr_def applyArgs_def webhookFix_def expressionFix_def isSpace_def
        remoteWith_def hookGraph_def)
  then obtain rep2 r2 where
    h: "autofixWorkflowHandler applyArgs (remoteWith hookGraph) = (Inr rep2, r2)"
      "fixesFound rep2 = 1" "r2 = remoteWith hookGraph"
    by blast
  from autofix_applied_count_is_found_count [OF f m(1)] m
  have one: "fixesApplied rep = 3" by simp
  from autofix_applied_count_is_found_count [OF f h(1)] h
  have two: "fixesApplied rep2 = 1" by simp
  from f m h one two show ?thesis by simp
qed

end
